theory Spec2Isabelle
  imports Main
begin

section \<open>Conventions\<close>

text \<open>
  The development embeds the incremental indexing pipeline of osgrep: the syntax-aware
  chunker with its paragraph fallback, the gitignore filter, the streamed file listing,
  the paginated listing of the remote store, the initial synchronisation and the metadata
  store.

  Paths, identifiers and digests are values of type \<open>string\<close>. Text whose Unicode content
  matters (the content handed to the chunker, the decoded output of the version-control
  tool) is a list of UTF-16 code units, as a JavaScript string is. A \<open>Buffer\<close> is a list of
  bytes, that is a \<open>string\<close> again. A function that can throw returns a sum with the
  error on the left. A loop whose number of rounds is decided by a remote party takes
  fuel and returns \<open>None\<close> when the fuel runs out.
\<close>

type_synonym jsstring = "nat list"

type_synonym buffer = string

datatype error =
    NetworkError
  | InitError
  | ParseError
  | ReadError
  | UploadError
  | ListError
  | RangeError
  | TypeError

definition js :: "string \<Rightarrow> jsstring" where
  "js s = map of_char s"

text \<open>\<open>s.split(sep)\<close> for a separator of one element: never the empty list.\<close>

fun split_on :: "'a \<Rightarrow> 'a list \<Rightarrow> 'a list list" where
  "split_on sep [] = [[]]"
| "split_on sep (c # cs) =
     (if c = sep then [] # split_on sep cs
      else (case split_on sep cs of
              [] \<Rightarrow> [[c]]
            | x # xs \<Rightarrow> (c # x) # xs))"

section \<open>The chunker\<close>

subsection \<open>Data\<close>

datatype chunk_type = TFunction | TClass | TBlock | TOther

record Chunk =
  content :: jsstring
  startLine :: nat
  endLine :: nat
  type :: chunk_type

text \<open>A top-level node of the syntax tree, as the traversal reads it.\<close>

record node =
  node_type :: string
  node_text :: jsstring
  startRow :: nat
  endRow :: nat

text \<open>
  The chunker object: \<open>parser\<close> tells whether the parser object is set, \<open>languages\<close> is
  the cache of loaded grammars.
\<close>

record 'l chunker =
  parser :: bool
  languages :: "string \<rightharpoonup> 'l"
  initialized :: bool

datatype http_response =
    NetworkFailure
  | Response nat string buffer

text \<open>
  What the chunker finds around it. \<open>parser_init\<close> is the outcome of starting the parser
  runtime, \<open>mkdir_grammars\<close> that of creating the grammar directory when it is missing
  (\<open>None\<close> when nothing is thrown); \<open>http_get\<close> answers a request for a URL
  with a network failure or with a response of a status code, a \<open>Location\<close> header and a
  body; \<open>language_load\<close> loads a grammar from the bytes of its file, or throws;
  \<open>parse\<close> gives the top-level nodes of the tree of a text. The files of the grammar
  directory are a map from paths to contents, threaded through the calls.
\<close>

record 'l chunk_env =
  GRAMMARS_DIR :: string
  parser_init :: "error option"
  mkdir_grammars :: "error option"
  http_get :: "string \<Rightarrow> http_response"
  language_load :: "buffer \<Rightarrow> error + 'l"
  parse :: "'l \<Rightarrow> jsstring \<Rightarrow> error + node list"

type_synonym files = "string \<rightharpoonup> buffer"

fun GRAMMAR_URLS :: "string \<Rightarrow> string option" where
  "GRAMMAR_URLS lang =
     (if lang = ''typescript'' then
        Some ''https://github.com/tree-sitter/tree-sitter-typescript/releases/download/v0.20.3/tree-sitter-typescript.wasm''
      else if lang = ''tsx'' then
        Some ''https://github.com/tree-sitter/tree-sitter-typescript/releases/download/v0.20.3/tree-sitter-tsx.wasm''
      else if lang = ''python'' then
        Some ''https://github.com/tree-sitter/tree-sitter-python/releases/download/v0.20.4/tree-sitter-python.wasm''
      else None)"

subsection \<open>The paragraph fallback\<close>

text \<open>
  The white space of the regular expression class \<open>\s\<close>, which is also what \<open>trim\<close>
  strips: the white space and the line terminators of ECMAScript.
\<close>

definition isWhiteSpace :: "nat \<Rightarrow> bool" where
  "isWhiteSpace c \<longleftrightarrow>
     c = 0x09 \<or> c = 0x0A \<or> c = 0x0B \<or> c = 0x0C \<or> c = 0x0D \<or> c = 0x20 \<or> c = 0xA0 \<or>
     c = 0x1680 \<or> (0x2000 \<le> c \<and> c \<le> 0x200A) \<or> c = 0x2028 \<or> c = 0x2029 \<or>
     c = 0x202F \<or> c = 0x205F \<or> c = 0x3000 \<or> c = 0xFEFF"

definition LF :: nat where
  "LF = 0x0A"

text \<open>
  A match of \<open>/\n\s*\n/\<close> at the head of a text: a line feed, the longest run of white
  space from which the match can still end in a line feed, and that line feed. The
  greedy star gives back characters until a line feed is the last one, so the match ends
  after the last line feed of the run of white space. The result is the text after the
  match.
\<close>

fun afterLastLF :: "jsstring \<Rightarrow> jsstring option" where
  "afterLastLF [] = None"
| "afterLastLF (c # cs) =
     (case afterLastLF cs of
        Some r \<Rightarrow> Some r
      | None \<Rightarrow> if c = LF then Some cs else None)"

definition matchBlankLine :: "jsstring \<Rightarrow> jsstring option" where
  "matchBlankLine s =
     (case s of
        [] \<Rightarrow> None
      | c # t \<Rightarrow>
          if c = LF then
            (case afterLastLF (takeWhile isWhiteSpace t) of
               None \<Rightarrow> None
             | Some r \<Rightarrow> Some (r @ dropWhile isWhiteSpace t))
          else None)"

lemma afterLastLF_length: "afterLastLF w = Some r \<Longrightarrow> length r < length w"
  by (induction w arbitrary: r) (auto split: option.splits if_splits)

lemma matchBlankLine_length:
  assumes "matchBlankLine s = Some r"
  shows "length r < length s"
proof -
  from assms obtain c t w where s: "s = c # t"
    and w: "afterLastLF (takeWhile isWhiteSpace t) = Some w"
    and r: "r = w @ dropWhile isWhiteSpace t"
    by (auto simp: matchBlankLine_def split: list.splits if_splits option.splits)
  have "length w < length (takeWhile isWhiteSpace t)"
    using w by (rule afterLastLF_length)
  moreover have "length (takeWhile isWhiteSpace t) + length (dropWhile isWhiteSpace t) = length t"
    by (metis length_append takeWhile_dropWhile_id)
  ultimately show ?thesis
    using s r by simp
qed

text \<open>
  \<open>content.split(/\n\s*\n/)\<close>: the text is scanned from the left, the first argument
  holds the characters of the current part in reverse, and the scan resumes after each
  match.
\<close>

function splitBlankLines :: "jsstring \<Rightarrow> jsstring \<Rightarrow> jsstring list" where
  "splitBlankLines cur [] = [rev cur]"
| "splitBlankLines cur (c # cs) =
     (case matchBlankLine (c # cs) of
        Some rest \<Rightarrow> rev cur # splitBlankLines [] rest
      | None \<Rightarrow> splitBlankLines (c # cur) cs)"
  by pat_completeness auto
termination
  by (relation "measure (\<lambda>(cur, s). length s)") (auto dest: matchBlankLine_length)

text \<open>\<open>!p.trim()\<close>: nothing is left of the paragraph once its white space is stripped.\<close>

definition trim :: "jsstring \<Rightarrow> jsstring" where
  "trim p = rev (dropWhile isWhiteSpace (rev (dropWhile isWhiteSpace p)))"

definition numLinesOf :: "jsstring \<Rightarrow> nat" where
  "numLinesOf p = length (split_on LF p)"

fun fallbackLoop :: "jsstring list \<Rightarrow> nat \<Rightarrow> Chunk list \<Rightarrow> Chunk list" where
  "fallbackLoop [] lineOffset chunks = chunks"
| "fallbackLoop (p # paragraphs) lineOffset chunks =
     (if trim p = [] then fallbackLoop paragraphs (lineOffset + numLinesOf p) chunks
      else
        (let numLines = numLinesOf p in
         fallbackLoop paragraphs (lineOffset + numLines)
           (chunks @ [\<lparr> content = p, startLine = lineOffset,
                        endLine = lineOffset + numLines, type = TBlock \<rparr>])))"

definition fallbackChunk :: "jsstring \<Rightarrow> Chunk list" where
  "fallbackChunk c = fallbackLoop (splitBlankLines [] c) 0 []"

text \<open>
  The paragraph splitter in the words of the specification. Lines are counted from 0, and
  the line of a position of the content is the number of line feeds before that
  position. The paragraphs are the parts between the blank-line boundaries, each with the
  position of the content at which it starts. A blank paragraph gives no chunk; every
  other paragraph gives one chunk of kind block, which starts on the line of the first
  character of the paragraph in the content and ends, exclusively, that line plus the
  number of lines of the paragraph.
\<close>

definition isBlank :: "jsstring \<Rightarrow> bool" where
  "isBlank p = list_all isWhiteSpace p"

definition lineAt :: "jsstring \<Rightarrow> nat \<Rightarrow> nat" where
  "lineAt c k = length (filter (\<lambda>x. x = LF) (take k c))"

definition lineCount :: "jsstring \<Rightarrow> nat" where
  "lineCount p = Suc (length (filter (\<lambda>x. x = LF) p))"

function paragraphsFrom :: "nat \<Rightarrow> jsstring \<Rightarrow> nat \<Rightarrow> jsstring \<Rightarrow> (nat \<times> jsstring) list" where
  "paragraphsFrom start cur pos [] = [(start, rev cur)]"
| "paragraphsFrom start cur pos (c # cs) =
     (case matchBlankLine (c # cs) of
        Some rest \<Rightarrow>
          (start, rev cur) #
            paragraphsFrom (pos + (length (c # cs) - length rest)) []
              (pos + (length (c # cs) - length rest)) rest
      | None \<Rightarrow> paragraphsFrom start (c # cur) (Suc pos) cs)"
  by pat_completeness auto
termination
  by (relation "measure (\<lambda>(start, cur, pos, s). length s)") (auto dest: matchBlankLine_length)

definition paragraphSplitter :: "jsstring \<Rightarrow> Chunk list" where
  "paragraphSplitter c =
     map (\<lambda>(k, p). \<lparr> content = p, startLine = lineAt c k, endLine = lineAt c k + lineCount p,
                     type = TBlock \<rparr>)
       (filter (\<lambda>(k, p). \<not> isBlank p) (paragraphsFrom 0 [] 0 c))"

subsection \<open>The syntax-aware pass\<close>

text \<open>
  \<open>path.extname\<close> of the POSIX flavour: the extension of the last non-empty segment of
  the path, from its last dot; empty when the segment has no dot, starts with its only
  dot, or is \<open>..\<close>.
\<close>

definition lastSegment :: "string \<Rightarrow> string" where
  "lastSegment p =
     (case filter (\<lambda>s. s \<noteq> []) (split_on (CHR ''/'') p) of
        [] \<Rightarrow> []
      | s # ss \<Rightarrow> last (s # ss))"

definition extname :: "string \<Rightarrow> string" where
  "extname p =
     (let b = lastSegment p;
          ext = CHR ''.'' # rev (takeWhile (\<lambda>c. c \<noteq> CHR ''.'') (rev b))
      in if CHR ''.'' \<notin> set b \<or> b = ''..'' \<or> length ext = length b then [] else ext)"

text \<open>
  \<open>toLowerCase\<close> on the letters A to Z; no other character becomes a character of one of
  the three extensions.
\<close>

definition toLowerCase :: "string \<Rightarrow> string" where
  "toLowerCase s =
     map (\<lambda>c. let n = (of_char c :: nat) in
                if 65 \<le> n \<and> n \<le> 90 then char_of (n + 32) else c) s"

definition languageOf :: "string \<Rightarrow> string" where
  "languageOf filePath =
     (let ext = toLowerCase (extname filePath) in
      if ext = ''.ts'' then ''typescript''
      else if ext = ''.tsx'' then ''tsx''
      else if ext = ''.py'' then ''python''
      else [])"

fun includesStr :: "string \<Rightarrow> string \<Rightarrow> bool" where
  "includesStr [] sub = (sub = [])"
| "includesStr (c # cs) sub = (take (length sub) (c # cs) = sub \<or> includesStr cs sub)"

text \<open>The loop over the children of the root node; \<open>chunks.push\<close> appends.\<close>

fun treeLoop :: "node list \<Rightarrow> Chunk list \<Rightarrow> Chunk list" where
  "treeLoop [] chunks = chunks"
| "treeLoop (child # children) chunks =
     (if node_type child = ''function_declaration'' \<or>
         node_type child = ''class_declaration'' \<or>
         node_type child = ''method_definition'' \<or>
         node_type child = ''function_definition'' \<or>
         node_type child = ''class_definition''
      then treeLoop children
             (chunks @ [\<lparr> content = node_text child, startLine = startRow child,
                          endLine = endRow child,
                          type = (if includesStr (node_type child) ''class'' then TClass else TFunction) \<rparr>])
      else if length (node_text child) > 50
      then treeLoop children
             (chunks @ [\<lparr> content = node_text child, startLine = startRow child,
                          endLine = endRow child, type = TOther \<rparr>])
      else treeLoop children chunks)"

text \<open>
  \<open>init\<close>: nothing when the chunker is initialised already; otherwise the runtime is
  started, the parser object is set, the grammar directory is created, and only then is
  the chunker marked initialised.
\<close>

definition init :: "'l chunk_env \<Rightarrow> 'l chunker \<Rightarrow> (error + unit) \<times> 'l chunker" where
  "init env st =
     (if initialized st then (Inr (), st)
      else (case parser_init env of
              Some e \<Rightarrow> (Inl e, st)
            | None \<Rightarrow>
                (let st1 = st\<lparr> parser := True \<rparr> in
                 case mkdir_grammars env of
                   Some e \<Rightarrow> (Inl e, st1)
                 | None \<Rightarrow> (Inr (), st1\<lparr> initialized := True \<rparr>))))"

text \<open>
  \<open>downloadFile\<close>: the destination is opened for writing first. A network error removes
  the destination and rejects; a redirect (301 or 302) downloads from the \<open>Location\<close>
  header, which the source asserts to be there; any other response is written to the
  destination. The fuel bounds the chain of redirects.
\<close>

fun downloadFile ::
  "nat \<Rightarrow> (string \<Rightarrow> http_response) \<Rightarrow> string \<Rightarrow> string \<Rightarrow> files
     \<Rightarrow> ((error + unit) \<times> files) option" where
  "downloadFile 0 get url dest fs = None"
| "downloadFile (Suc n) get url dest fs =
     (let fs1 = fs(dest \<mapsto> []) in
      case get url of
        NetworkFailure \<Rightarrow> Some (Inl NetworkError, fs1(dest := None))
      | Response statusCode location body \<Rightarrow>
          if statusCode = 302 \<or> statusCode = 301 then downloadFile n get location dest fs1
          else Some (Inr (), fs1(dest \<mapsto> body)))"

definition wasmPathOf :: "'l chunk_env \<Rightarrow> string \<Rightarrow> string" where
  "wasmPathOf env lang = GRAMMARS_DIR env @ ''/tree-sitter-'' @ lang @ ''.wasm''"

text \<open>The guarded part of \<open>getLanguage\<close>: a grammar that does not load gives \<open>null\<close>.\<close>

definition loadLanguage ::
  "'l chunk_env \<Rightarrow> 'l chunker \<Rightarrow> files \<Rightarrow> string
     \<Rightarrow> ((error + 'l option) \<times> 'l chunker \<times> files) option" where
  "loadLanguage env st fs lang =
     (case fs (wasmPathOf env lang) of
        None \<Rightarrow> Some (Inr None, st, fs)
      | Some bytes \<Rightarrow>
          (case language_load env bytes of
             Inl e \<Rightarrow> Some (Inr None, st, fs)
           | Inr language \<Rightarrow>
               Some (Inr (Some language),
                     st\<lparr> languages := (languages st)(lang \<mapsto> language) \<rparr>, fs)))"

definition getLanguage ::
  "nat \<Rightarrow> 'l chunk_env \<Rightarrow> 'l chunker \<Rightarrow> files \<Rightarrow> string
     \<Rightarrow> ((error + 'l option) \<times> 'l chunker \<times> files) option" where
  "getLanguage n env st fs lang =
     (case languages st lang of
        Some language \<Rightarrow> Some (Inr (Some language), st, fs)
      | None \<Rightarrow>
          if fs (wasmPathOf env lang) = None then
            (case GRAMMAR_URLS lang of
               None \<Rightarrow> Some (Inr None, st, fs)
             | Some url \<Rightarrow>
                 (case downloadFile n (http_get env) url (wasmPathOf env lang) fs of
                    None \<Rightarrow> None
                  | Some (Inl e, fs1) \<Rightarrow> Some (Inl e, st, fs1)
                  | Some (Inr u, fs1) \<Rightarrow> loadLanguage env st fs1 lang))
          else loadLanguage env st fs lang)"

definition chunk ::
  "nat \<Rightarrow> 'l chunk_env \<Rightarrow> 'l chunker \<Rightarrow> files \<Rightarrow> string \<Rightarrow> jsstring
     \<Rightarrow> ((error + Chunk list) \<times> 'l chunker \<times> files) option" where
  "chunk n env st fs filePath c =
     (case init env st of
        (Inl e, st1) \<Rightarrow> Some (Inl e, st1, fs)
      | (Inr u, st1) \<Rightarrow>
          if \<not> parser st1 then Some (Inr (fallbackChunk c), st1, fs)
          else
            (let lang = languageOf filePath in
             if lang = [] then Some (Inr (fallbackChunk c), st1, fs)
             else
               (case getLanguage n env st1 fs lang of
                  None \<Rightarrow> None
                | Some (Inl e, st2, fs2) \<Rightarrow> Some (Inl e, st2, fs2)
                | Some (Inr None, st2, fs2) \<Rightarrow> Some (Inr (fallbackChunk c), st2, fs2)
                | Some (Inr (Some language), st2, fs2) \<Rightarrow>
                    (case parse env language c of
                       Inl e \<Rightarrow> Some (Inl e, st2, fs2)
                     | Inr children \<Rightarrow>
                         (let chunks = treeLoop children [] in
                          if chunks = [] then Some (Inr (fallbackChunk c), st2, fs2)
                          else Some (Inr chunks, st2, fs2))))))"

subsection \<open>Sample surroundings\<close>

text \<open>
  A fresh chunker, and three machines: one that is offline and has no grammar in its
  cache, one whose cached TypeScript grammar is damaged, and one whose grammar loads and
  whose parser reports two short import statements.
\<close>

definition fresh_chunker :: "string chunker" where
  "fresh_chunker = \<lparr> parser = False, languages = Map.empty, initialized = False \<rparr>"

definition ready_chunker :: "string chunker" where
  "ready_chunker = \<lparr> parser = True, languages = Map.empty, initialized = True \<rparr>"

definition loaded_chunker :: "string chunker" where
  "loaded_chunker =
     \<lparr> parser = True, languages = [''typescript'' \<mapsto> ''grammar''], initialized = True \<rparr>"

definition offline_env :: "string chunk_env" where
  "offline_env =
     \<lparr> GRAMMARS_DIR = ''/home/u/.osgrep/grammars'', parser_init = None, mkdir_grammars = None,
       http_get = (\<lambda>url. NetworkFailure),
       language_load = (\<lambda>bytes. if bytes = ''wasm'' then Inr ''grammar'' else Inl ParseError),
       parse = (\<lambda>language text. Inr []) \<rparr>"

definition imports_env :: "string chunk_env" where
  "imports_env =
     offline_env\<lparr> parse := (\<lambda>language text.
        Inr [\<lparr> node_type = ''import_statement'', node_text = js ''import a'', startRow = 0, endRow = 0 \<rparr>,
             \<lparr> node_type = ''import_statement'', node_text = js ''import b'', startRow = 2, endRow = 2 \<rparr>]) \<rparr>"

definition damaged_cache :: files where
  "damaged_cache = [''/home/u/.osgrep/grammars/tree-sitter-typescript.wasm'' \<mapsto> ''torn'']"

definition good_cache :: files where
  "good_cache = [''/home/u/.osgrep/grammars/tree-sitter-typescript.wasm'' \<mapsto> ''wasm'']"

definition two_paragraphs :: jsstring where
  "two_paragraphs = js ''import a\<newline>\<newline>import b''"

text \<open>
  A text of seven lines: a paragraph of two lines, two empty lines, the paragraph \<open>c\<close> on
  line 4, one empty line, the paragraph \<open>d\<close> on line 6.
\<close>

definition spaced_paragraphs :: jsstring where
  "spaced_paragraphs = js ''a\<newline>b\<newline>\<newline>\<newline>c\<newline>\<newline>d''"

subsection \<open>Properties of the chunker\<close>

lemma trim_Nil_iff: "trim p = [] \<longleftrightarrow> isBlank p"
proof
  assume "trim p = []"
  then have "\<forall>x\<in>set (dropWhile isWhiteSpace p). isWhiteSpace x"
    by (simp add: trim_def dropWhile_eq_Nil_conv)
  then have "dropWhile isWhiteSpace p = []"
    using hd_dropWhile [of isWhiteSpace p] hd_in_set [of "dropWhile isWhiteSpace p"] by blast
  then show "isBlank p"
    by (simp add: isBlank_def list_all_iff)
next
  assume "isBlank p"
  then have "\<forall>x\<in>set p. isWhiteSpace x"
    by (simp add: isBlank_def list_all_iff)
  then have "dropWhile isWhiteSpace p = []"
    by (simp only: dropWhile_eq_Nil_conv)
  then show "trim p = []"
    by (simp add: trim_def del: dropWhile_eq_Nil_conv)
qed

lemma paragraphsFrom_parts:
  "map snd (paragraphsFrom start cur pos s) = splitBlankLines cur s"
  by (induction start cur pos s rule: paragraphsFrom.induct) (auto split: option.splits)

lemma paragraphsFrom_head:
  "\<exists>p rest. paragraphsFrom start cur pos s = (start, p) # rest"
  by (induction start cur pos s rule: paragraphsFrom.induct) (auto split: option.splits)

lemma split_on_count: "length (split_on x s) = Suc (length (filter (\<lambda>y. y = x) s))"
  by (induction s) (auto split: list.splits)

lemma numLinesOf_lineCount: "numLinesOf p = lineCount p"
  by (simp add: numLinesOf_def lineCount_def split_on_count)

lemma fallbackLoop_contents:
  "map content (fallbackLoop ps off acc) = map content acc @ filter (\<lambda>p. \<not> isBlank p) ps"
  by (induction ps arbitrary: off acc) (simp_all add: trim_Nil_iff Let_def)

lemma fallbackLoop_lines:
  assumes "\<forall>ch \<in> set acc. endLine ch = startLine ch + lineCount (content ch) \<and> type ch = TBlock"
  shows "\<forall>ch \<in> set (fallbackLoop ps off acc).
           endLine ch = startLine ch + lineCount (content ch) \<and> type ch = TBlock"
  using assms
proof (induction ps arbitrary: off acc)
  case Nil
  then show ?case by simp
next
  case (Cons p ps)
  show ?case
  proof (cases "trim p = []")
    case True
    then show ?thesis
      using Cons.IH [OF Cons.prems] by simp
  next
    case False
    have "\<forall>ch \<in> set (acc @ [\<lparr> content = p, startLine = off,
                        endLine = off + numLinesOf p, type = TBlock \<rparr>]).
            endLine ch = startLine ch + lineCount (content ch) \<and> type ch = TBlock"
      using Cons.prems by (simp add: numLinesOf_lineCount)
    then have "\<forall>ch \<in> set (fallbackLoop ps (off + numLinesOf p)
                     (acc @ [\<lparr> content = p, startLine = off,
                        endLine = off + numLinesOf p, type = TBlock \<rparr>])).
            endLine ch = startLine ch + lineCount (content ch) \<and> type ch = TBlock"
      by (rule Cons.IH)
    then show ?thesis
      using False by (simp add: Let_def)
  qed
qed

text \<open>
  What the loop of \<open>fallbackChunk\<close> gets right: the chunks are the paragraphs that are not
  blank, in their order, each of kind block and ending at its start plus its number of
  lines. What is left open is the line on which a chunk starts.
\<close>

lemma fallbackChunk_paragraphs:
  "map content (fallbackChunk c) = map content (paragraphSplitter c) \<and>
   (\<forall>ch \<in> set (fallbackChunk c).
      endLine ch = startLine ch + lineCount (content ch) \<and> type ch = TBlock)"
proof
  have "map content (paragraphSplitter c)
      = map snd (filter (\<lambda>(k, p). \<not> isBlank p) (paragraphsFrom 0 [] 0 c))"
    by (simp add: paragraphSplitter_def case_prod_unfold comp_def)
  also have "\<dots> = filter (\<lambda>p. \<not> isBlank p) (map snd (paragraphsFrom 0 [] 0 c))"
    by (simp add: filter_map comp_def case_prod_unfold)
  finally show "map content (fallbackChunk c) = map content (paragraphSplitter c)"
    by (simp add: fallbackChunk_def fallbackLoop_contents paragraphsFrom_parts)
  show "\<forall>ch \<in> set (fallbackChunk c).
      endLine ch = startLine ch + lineCount (content ch) \<and> type ch = TBlock"
    unfolding fallbackChunk_def by (rule fallbackLoop_lines) simp
qed

text \<open>
  A content without a blank-line boundary is one paragraph, and there the loop and the
  splitter of the specification agree.
\<close>

lemma fallbackChunk_single_paragraph:
  assumes "splitBlankLines [] c = [p]"
  shows "fallbackChunk c = paragraphSplitter c"
proof -
  obtain q rest where head: "paragraphsFrom 0 [] 0 c = (0, q) # rest"
    using paragraphsFrom_head [of 0 "[]" 0 c] by blast
  have "map snd (paragraphsFrom 0 [] 0 c) = [p]"
    using assms by (simp add: paragraphsFrom_parts)
  with head have one: "paragraphsFrom 0 [] 0 c = [(0, p)]"
    by simp
  show ?thesis
    by (simp add: fallbackChunk_def paragraphSplitter_def assms one trim_Nil_iff lineAt_def
        numLinesOf_lineCount Let_def)
qed

text \<open>
  The branches of \<open>chunk\<close> that give the fallback: no parser, no language for the
  extension, no grammar, and a pass over the syntax tree that gives no chunk.
\<close>

lemma chunk_falls_back:
  assumes "init env st = (Inr (), st1)"
  shows "(\<not> parser st1 \<or> languageOf filePath = [] \<longrightarrow>
       chunk n env st fs filePath c = Some (Inr (fallbackChunk c), st1, fs)) \<and>
    (parser st1 \<and> languageOf filePath \<noteq> [] \<and>
     getLanguage n env st1 fs (languageOf filePath) = Some (Inr None, st2, fs2) \<longrightarrow>
       chunk n env st fs filePath c = Some (Inr (fallbackChunk c), st2, fs2)) \<and>
    (parser st1 \<and> languageOf filePath \<noteq> [] \<and>
     getLanguage n env st1 fs (languageOf filePath) = Some (Inr (Some language), st2, fs2) \<and>
     parse env language c = Inr children \<and> treeLoop children [] = [] \<longrightarrow>
       chunk n env st fs filePath c = Some (Inr (fallbackChunk c), st2, fs2))"
  using assms by (auto simp: chunk_def Let_def)

lemma init_offline: "init offline_env fresh_chunker = (Inr (), ready_chunker)"
  by (simp add: init_def offline_env_def fresh_chunker_def ready_chunker_def Let_def)

lemma init_imports: "init imports_env fresh_chunker = (Inr (), ready_chunker)"
  by (simp add: init_def imports_env_def offline_env_def fresh_chunker_def ready_chunker_def Let_def)

lemma languageOf_notes: "languageOf ''notes.txt'' = []"
  by code_simp

lemma languageOf_App: "languageOf ''src/App.TS'' = ''typescript''"
  by code_simp

lemma getLanguage_damaged:
  "getLanguage 0 imports_env ready_chunker damaged_cache ''typescript''
     = Some (Inr None, ready_chunker, damaged_cache)"
  by (simp add: getLanguage_def loadLanguage_def imports_env_def offline_env_def
      ready_chunker_def damaged_cache_def wasmPathOf_def)

lemma getLanguage_good:
  "getLanguage 0 imports_env ready_chunker good_cache ''typescript''
     = Some (Inr (Some ''grammar''), loaded_chunker, good_cache)"
  by (simp add: getLanguage_def loadLanguage_def imports_env_def offline_env_def
      ready_chunker_def loaded_chunker_def good_cache_def wasmPathOf_def)

lemma parse_imports:
  "parse imports_env ''grammar'' two_paragraphs = Inr
     [\<lparr> node_type = ''import_statement'', node_text = js ''import a'', startRow = 0, endRow = 0 \<rparr>,
      \<lparr> node_type = ''import_statement'', node_text = js ''import b'', startRow = 2, endRow = 2 \<rparr>]"
  by (simp add: imports_env_def)

lemma treeLoop_imports:
  "treeLoop
     [\<lparr> node_type = ''import_statement'', node_text = js ''import a'', startRow = 0, endRow = 0 \<rparr>,
      \<lparr> node_type = ''import_statement'', node_text = js ''import b'', startRow = 2, endRow = 2 \<rparr>] [] = []"
  by (simp add: js_def)

lemma chunk_falls_back_samples:
  "chunk 0 offline_env fresh_chunker Map.empty ''notes.txt'' two_paragraphs
     = Some (Inr (fallbackChunk two_paragraphs), ready_chunker, Map.empty) \<and>
   chunk 0 imports_env fresh_chunker damaged_cache ''src/App.TS'' two_paragraphs
     = Some (Inr (fallbackChunk two_paragraphs), ready_chunker, damaged_cache) \<and>
   chunk 0 imports_env fresh_chunker good_cache ''src/App.TS'' two_paragraphs
     = Some (Inr (fallbackChunk two_paragraphs), loaded_chunker, good_cache)"
proof -
  have ready: "parser ready_chunker"
    by (simp add: ready_chunker_def)
  have a: "chunk 0 offline_env fresh_chunker Map.empty ''notes.txt'' two_paragraphs
     = Some (Inr (fallbackChunk two_paragraphs), ready_chunker, Map.empty)"
    using chunk_falls_back [OF init_offline, where filePath = "''notes.txt''" and n = 0
        and fs = Map.empty and c = two_paragraphs] languageOf_notes
    by simp
  have b: "chunk 0 imports_env fresh_chunker damaged_cache ''src/App.TS'' two_paragraphs
     = Some (Inr (fallbackChunk two_paragraphs), ready_chunker, damaged_cache)"
    using chunk_falls_back [OF init_imports, where filePath = "''src/App.TS''" and n = 0
        and fs = damaged_cache and ?st2.0 = ready_chunker and ?fs2.0 = damaged_cache
        and c = two_paragraphs] languageOf_App getLanguage_damaged ready
    by simp
  have c: "chunk 0 imports_env fresh_chunker good_cache ''src/App.TS'' two_paragraphs
     = Some (Inr (fallbackChunk two_paragraphs), loaded_chunker, good_cache)"
    using chunk_falls_back [OF init_imports, where filePath = "''src/App.TS''" and n = 0
        and fs = good_cache and ?st2.0 = loaded_chunker and ?fs2.0 = good_cache
        and language = "''grammar''" and c = two_paragraphs
        and children = "[\<lparr> node_type = ''import_statement'', node_text = js ''import a'', startRow = 0, endRow = 0 \<rparr>,
      \<lparr> node_type = ''import_statement'', node_text = js ''import b'', startRow = 2, endRow = 2 \<rparr>]"]
      languageOf_App getLanguage_good ready parse_imports treeLoop_imports
    by simp
  show ?thesis
    using a b c by simp
qed

lemma fallbackChunk_spaced:
  "fallbackChunk spaced_paragraphs =
     [\<lparr>content = js ''a\<newline>b'', startLine = 0, endLine = 2, type = TBlock\<rparr>,
      \<lparr>content = js ''c'', startLine = 2, endLine = 3, type = TBlock\<rparr>,
      \<lparr>content = js ''d'', startLine = 3, endLine = 4, type = TBlock\<rparr>]"
  by (simp add: fallbackChunk_def spaced_paragraphs_def js_def matchBlankLine_def isWhiteSpace_def
      LF_def trim_def numLinesOf_def Let_def)

lemma paragraphSplitter_spaced:
  "paragraphSplitter spaced_paragraphs =
     [\<lparr>content = js ''a\<newline>b'', startLine = 0, endLine = 2, type = TBlock\<rparr>,
      \<lparr>content = js ''c'', startLine = 4, endLine = 5, type = TBlock\<rparr>,
      \<lparr>content = js ''d'', startLine = 6, endLine = 7, type = TBlock\<rparr>]"
  by (simp add: paragraphSplitter_def spaced_paragraphs_def js_def matchBlankLine_def
      isWhiteSpace_def LF_def isBlank_def lineAt_def lineCount_def Let_def)

text \<open>
  A blank paragraph gives no chunk and advances the running offset by its own lines: the
  paragraph \<open>a\<close> after a line with one space and an empty line is reported on line 1, and
  it is on line 2.
\<close>

lemma fallbackChunk_blank_start:
  "fallbackChunk (js '' \<newline>\<newline>a'') =
     [\<lparr>content = js ''a'', startLine = 1, endLine = 2, type = TBlock\<rparr>] \<and>
   paragraphSplitter (js '' \<newline>\<newline>a'') =
     [\<lparr>content = js ''a'', startLine = 2, endLine = 3, type = TBlock\<rparr>]"
  by (simp add: fallbackChunk_def paragraphSplitter_def js_def matchBlankLine_def
      isWhiteSpace_def LF_def trim_def numLinesOf_def isBlank_def lineAt_def lineCount_def Let_def)

text \<open>
  C9. The fallback does not give the line numbers of the paragraph splitter: the running
  offset of \<open>fallbackChunk\<close> adds up the lines of the paragraphs and leaves out the lines
  that the blank-line boundaries take, so every chunk after a boundary starts too early.
  For a text file with the paragraph \<open>a\<close>, \<open>b\<close> on the lines 0 and 1, \<open>c\<close> on line 4 and
  \<open>d\<close> on line 6, \<open>chunk\<close> reports \<open>c\<close> on the lines from 2 to 3 and \<open>d\<close> from 3 to 4,
  where the paragraph splitter has them from 4 to 5 and from 6 to 7.
\<close>

theorem chunk_fallback_line_numbers:
  "map_option fst (chunk 0 offline_env fresh_chunker Map.empty ''notes.txt'' spaced_paragraphs)
     = Some (Inr
         [\<lparr>content = js ''a\<newline>b'', startLine = 0, endLine = 2, type = TBlock\<rparr>,
          \<lparr>content = js ''c'', startLine = 2, endLine = 3, type = TBlock\<rparr>,
          \<lparr>content = js ''d'', startLine = 3, endLine = 4, type = TBlock\<rparr>]) \<and>
   paragraphSplitter spaced_paragraphs =
     [\<lparr>content = js ''a\<newline>b'', startLine = 0, endLine = 2, type = TBlock\<rparr>,
      \<lparr>content = js ''c'', startLine = 4, endLine = 5, type = TBlock\<rparr>,
      \<lparr>content = js ''d'', startLine = 6, endLine = 7, type = TBlock\<rparr>]"
proof -
  have "chunk 0 offline_env fresh_chunker Map.empty ''notes.txt'' spaced_paragraphs
      = Some (Inr (fallbackChunk spaced_paragraphs), ready_chunker, Map.empty)"
    using chunk_falls_back [OF init_offline, where filePath = "''notes.txt''" and n = 0
        and fs = Map.empty and c = spaced_paragraphs] languageOf_notes
    by simp
  then show ?thesis
    by (simp add: fallbackChunk_spaced paragraphSplitter_spaced)
qed

text \<open>
  Two of the three failures of the acquisition of a grammar do give \<open>null\<close>, and with it
  the fallback: a language without a download address, and a grammar file that does not
  load.
\<close>

lemma getLanguage_unsupported:
  assumes "languages st lang = None" and "fs (wasmPathOf env lang) = None"
    and "GRAMMAR_URLS lang = None"
  shows "getLanguage n env st fs lang = Some (Inr None, st, fs)"
  using assms by (simp add: getLanguage_def)

lemma getLanguage_load_error:
  assumes "languages st lang = None" and "fs (wasmPathOf env lang) = Some bytes"
    and "language_load env bytes = Inl e"
  shows "getLanguage n env st fs lang = Some (Inr None, st, fs)"
  using assms by (simp add: getLanguage_def loadLanguage_def)

text \<open>
  C5. A grammar that cannot be downloaded: on a machine that is offline and has no cached
  grammar, \<open>chunk\<close> on a TypeScript file does not fall back to the paragraphs, the
  network error of the download leaves \<open>chunk\<close> as an exception. The download is outside
  the guard that turns a load error into the fallback.
\<close>

theorem chunk_download_failure_escapes:
  "map_option fst (chunk 1 offline_env fresh_chunker Map.empty ''src/App.TS'' two_paragraphs)
     = Some (Inl NetworkError)"
proof -
  have "getLanguage 1 offline_env ready_chunker Map.empty ''typescript''
      = Some (Inl NetworkError, ready_chunker, Map.empty)"
    by (simp add: getLanguage_def offline_env_def ready_chunker_def wasmPathOf_def)
  then show ?thesis
    using init_offline languageOf_App by (simp add: chunk_def ready_chunker_def)
qed

section \<open>The gitignore filter\<close>

text \<open>
  What \<open>fs.statSync\<close> tells about a path: its kind, or \<open>None\<close> when the call throws (the
  path does not exist or cannot be reached).
\<close>

datatype file_kind = RegularFile | Directory | OtherKind

type_synonym stat_fn = "string \<Rightarrow> file_kind option"

text \<open>
  The filter holds an instance of the \<open>ignore\<close> package. The instance is a value of the
  package, not of this program: it is taken as what its method \<open>ignores\<close> answers for a
  path, a verdict or an exception.
\<close>

record GitIgnoreFilter =
  ignoreInstance :: "string \<Rightarrow> error + bool"

text \<open>
  \<open>path.relative\<close> of the POSIX flavour. Both paths are resolved against the working
  directory into their lists of segments (empty segments and \<open>.\<close> are dropped, \<open>..\<close>
  removes the segment before it and is dropped at the root); the result climbs with one
  \<open>..\<close> for every segment of \<open>from\<close> after the common prefix and then descends along the
  rest of \<open>to\<close>.
\<close>

fun joinSegments :: "string list \<Rightarrow> string" where
  "joinSegments [] = []"
| "joinSegments [s] = s"
| "joinSegments (s # t # ss) = s @ ''/'' @ joinSegments (t # ss)"

fun normalizeSegments :: "string list \<Rightarrow> string list \<Rightarrow> string list" where
  "normalizeSegments acc [] = rev acc"
| "normalizeSegments acc (s # ss) =
     (if s = [] \<or> s = ''.'' then normalizeSegments acc ss
      else if s = ''..'' then normalizeSegments (case acc of [] \<Rightarrow> [] | a # as \<Rightarrow> as) ss
      else normalizeSegments (s # acc) ss)"

definition resolve :: "string \<Rightarrow> string \<Rightarrow> string list" where
  "resolve cwd p =
     normalizeSegments []
       (split_on (CHR ''/'') (case p of [] \<Rightarrow> cwd | c # cs \<Rightarrow> if c = CHR ''/'' then p else cwd @ ''/'' @ p))"

fun dropCommon :: "string list \<Rightarrow> string list \<Rightarrow> string list \<times> string list" where
  "dropCommon (x # xs) (y # ys) = (if x = y then dropCommon xs ys else (x # xs, y # ys))"
| "dropCommon xs ys = (xs, ys)"

definition relative :: "string \<Rightarrow> string \<Rightarrow> string \<Rightarrow> string" where
  "relative cwd from to =
     (if from = to then []
      else
        (let f = resolve cwd from; t = resolve cwd to in
         if f = t then []
         else (case dropCommon f t of
                 (up, down) \<Rightarrow> joinSegments (replicate (length up) ''..'' @ down))))"

definition normalizePathForIgnore :: "string \<Rightarrow> string \<Rightarrow> string \<Rightarrow> string" where
  "normalizePathForIgnore cwd filePath root =
     map (\<lambda>c. if c = CHR 0x5C then CHR ''/'' else c) (relative cwd root filePath)"

definition isIgnored ::
  "GitIgnoreFilter \<Rightarrow> stat_fn \<Rightarrow> string \<Rightarrow> string \<Rightarrow> string \<Rightarrow> error + bool" where
  "isIgnored flt statSync cwd filePath root =
     (let normalizedPath = normalizePathForIgnore cwd filePath root in
      if normalizedPath = [] then Inr False
      else
        (let isDirectory = (case statSync filePath of None \<Rightarrow> False | Some k \<Rightarrow> k = Directory);
             pathToCheck = (if isDirectory then normalizedPath @ ''/'' else normalizedPath)
         in ignoreInstance flt pathToCheck))"

text \<open>
  Sample instances. The package checks the path before it matches: an empty path and a
  path that is not the result of \<open>path.relative\<close> (dots followed by a slash at its head,
  or dots only) are refused with an exception. \<open>dist_and_logs\<close> is the verdict of the
  rules \<open>dist/\<close> and \<open>*.log\<close>: a directory named \<open>dist\<close> and what is below it, and any name
  that ends in \<open>.log\<close>, compared without regard to the case of the letters, as the
  package does unless told otherwise.
\<close>

definition isNotRelative :: "string \<Rightarrow> bool" where
  "isNotRelative p \<longleftrightarrow>
     (case dropWhile (\<lambda>c. c = CHR ''.'') p of [] \<Rightarrow> p \<noteq> [] | c # cs \<Rightarrow> c = CHR ''/'')"

definition ignorePackage :: "(string \<Rightarrow> bool) \<Rightarrow> string \<Rightarrow> error + bool" where
  "ignorePackage rules p =
     (if p = [] then Inl TypeError
      else if isNotRelative p then Inl RangeError
      else Inr (rules p))"

definition endsWith :: "string \<Rightarrow> string \<Rightarrow> bool" where
  "endsWith s suf = (length suf \<le> length s \<and> drop (length s - length suf) s = suf)"

definition dist_and_logs :: "string \<Rightarrow> bool" where
  "dist_and_logs p =
     (let segs = split_on (CHR ''/'') (toLowerCase p) in
      list_ex (\<lambda>s. s = ''dist'') (butlast segs) \<or> list_ex (\<lambda>s. endsWith s ''.log'') segs)"

definition no_rules_filter :: GitIgnoreFilter where
  "no_rules_filter = \<lparr> ignoreInstance = ignorePackage (\<lambda>p. False) \<rparr>"

definition dist_filter :: GitIgnoreFilter where
  "dist_filter = \<lparr> ignoreInstance = ignorePackage dist_and_logs \<rparr>"


text \<open>
  A path resolves outside the root when the root has a segment that the path does not
  share. \<open>pathToCheckOf\<close> is the path handed to the instance.
\<close>

definition resolvesOutside :: "string \<Rightarrow> string \<Rightarrow> string \<Rightarrow> bool" where
  "resolvesOutside cwd filePath root \<longleftrightarrow>
     fst (dropCommon (resolve cwd root) (resolve cwd filePath)) \<noteq> []"

definition pathToCheckOf :: "stat_fn \<Rightarrow> string \<Rightarrow> string \<Rightarrow> string \<Rightarrow> string" where
  "pathToCheckOf statSync cwd filePath root =
     (if statSync filePath = Some Directory then normalizePathForIgnore cwd filePath root @ ''/''
      else normalizePathForIgnore cwd filePath root)"

subsection \<open>Properties of the filter\<close>

lemma relative_same: "relative cwd p p = []"
  by (simp add: relative_def)

lemma dropCommon_same:
  "dropCommon f t = (up, down) \<Longrightarrow> up \<noteq> [] \<Longrightarrow> f \<noteq> t"
  by (induction f t rule: dropCommon.induct) (auto split: if_splits)

lemma joinSegments_dotdot:
  "take 2 (joinSegments (''..'' # ss)) = ''..''"
  by (cases ss) simp_all

lemma relative_outside:
  assumes "resolvesOutside cwd filePath root"
  shows "take 2 (relative cwd root filePath) = ''..''"
proof -
  obtain up down where ud: "dropCommon (resolve cwd root) (resolve cwd filePath) = (up, down)"
    by (cases "dropCommon (resolve cwd root) (resolve cwd filePath)")
  with assms have up: "up \<noteq> []"
    by (simp add: resolvesOutside_def)
  then have ne: "resolve cwd root \<noteq> resolve cwd filePath"
    using ud by (rule dropCommon_same [rotated])
  then have "root \<noteq> filePath"
    by auto
  moreover obtain k where "length up = Suc k"
    using up by (cases up) auto
  ultimately show ?thesis
    using ud ne by (simp add: relative_def Let_def joinSegments_dotdot)
qed

lemma normalizePathForIgnore_outside:
  assumes "resolvesOutside cwd filePath root"
  shows "take 2 (normalizePathForIgnore cwd filePath root) = ''..''"
proof -
  have "take 2 (normalizePathForIgnore cwd filePath root)
      = map (\<lambda>c. if c = CHR 0x5C then CHR ''/'' else c) (take 2 (relative cwd root filePath))"
    by (simp add: normalizePathForIgnore_def take_map)
  then show ?thesis
    using relative_outside [OF assms] by simp
qed

text \<open>
  C6 (as amended). For every rule set and every root, \<open>isIgnored(root, root)\<close> returns
  false without consulting the rules. For a path that resolves outside the root the
  filter has no case of its own: the relative form, which starts with \<open>..\<close>, is handed to
  the instance of the rules (with a slash appended when the path is a directory) and the
  answer, verdict or exception, is the instance's.
\<close>

theorem isIgnored_root_and_outside:
  "isIgnored flt statSync cwd root root = Inr False \<and>
   (resolvesOutside cwd filePath root \<longrightarrow>
      take 2 (pathToCheckOf statSync cwd filePath root) = ''..'' \<and>
      isIgnored flt statSync cwd filePath root
        = ignoreInstance flt (pathToCheckOf statSync cwd filePath root))"
proof (intro conjI impI)
  show "isIgnored flt statSync cwd root root = Inr False"
    by (simp add: isIgnored_def normalizePathForIgnore_def relative_same)
next
  assume out: "resolvesOutside cwd filePath root"
  have two: "take 2 (normalizePathForIgnore cwd filePath root) = ''..''"
    using out by (rule normalizePathForIgnore_outside)
  then have ne: "normalizePathForIgnore cwd filePath root \<noteq> []"
    by auto
  have "2 \<le> length (normalizePathForIgnore cwd filePath root)"
    using two by (metis length_take min.cobounded1 length_Cons list.size(3) One_nat_def Suc_1)
  then show "take 2 (pathToCheckOf statSync cwd filePath root) = ''..''"
    using two by (simp add: pathToCheckOf_def)
  show "isIgnored flt statSync cwd filePath root
        = ignoreInstance flt (pathToCheckOf statSync cwd filePath root)"
    using ne by (cases "statSync filePath") (auto simp: isIgnored_def pathToCheckOf_def Let_def)
qed

lemma outside_tmp: "resolvesOutside ''/'' ''/tmp'' ''/tmp/osgrep''"
  by (simp add: resolvesOutside_def resolve_def)

lemma pathToCheck_tmp: "pathToCheckOf (\<lambda>p. Some Directory) ''/'' ''/tmp'' ''/tmp/osgrep'' = ''../''"
  by (simp add: pathToCheckOf_def normalizePathForIgnore_def relative_def resolve_def Let_def)

theorem isIgnored_root_and_outside_witness:
  "isIgnored dist_filter (\<lambda>p. Some Directory) ''/'' ''/tmp/osgrep'' ''/tmp/osgrep'' = Inr False \<and>
   isIgnored dist_filter (\<lambda>p. Some Directory) ''/'' ''/tmp'' ''/tmp/osgrep''
     = ignoreInstance dist_filter ''../''"
  using isIgnored_root_and_outside [where flt = dist_filter and statSync = "\<lambda>p. Some Directory"
      and cwd = "''/''" and root = "''/tmp/osgrep''" and filePath = "''/tmp''"]
    outside_tmp pathToCheck_tmp
  by simp

text \<open>
  C6 as stated fails: with no rule loaded, the parent directory of the root is not
  reported as ignored; the instance refuses the path \<open>../\<close> with an exception.
\<close>

theorem isIgnored_outside_counterexample:
  "isIgnored no_rules_filter (\<lambda>p. Some Directory) ''/'' ''/tmp'' ''/tmp/osgrep'' = Inl RangeError"
  by (simp add: isIgnored_def normalizePathForIgnore_def relative_def resolve_def Let_def
      no_rules_filter_def ignorePackage_def isNotRelative_def)

text \<open>
  C10 (as amended). The failure of the probe is swallowed: for a path that cannot be
  stat'ed \<open>isIgnored\<close> does what it does for a regular file of that name. The root
  itself gives false; any other path is handed to the instance of the rules in its
  relative form with no trailing separator, and the answer, verdict or exception, is the
  instance's. So \<open>isIgnored\<close> throws only where the instance throws for that relative
  path, and a rule for directories only is kept from the path that names the directory,
  not from the paths below it.
\<close>

theorem isIgnored_unstatable:
  assumes "statSync filePath = None"
  shows "isIgnored flt statSync cwd filePath root =
           (if normalizePathForIgnore cwd filePath root = [] then Inr False
            else ignoreInstance flt (normalizePathForIgnore cwd filePath root)) \<and>
         isIgnored flt statSync cwd filePath root =
           isIgnored flt (statSync(filePath \<mapsto> RegularFile)) cwd filePath root \<and>
         (\<forall>e. isIgnored flt statSync cwd filePath root = Inl e \<longrightarrow>
              ignoreInstance flt (normalizePathForIgnore cwd filePath root) = Inl e)"
  using assms by (simp add: isIgnored_def Let_def)

theorem isIgnored_unstatable_witness:
  "isIgnored dist_filter (\<lambda>p. None) ''/'' ''/repo/dist'' ''/repo'' = Inr False \<and>
   isIgnored dist_filter ((\<lambda>p. None)(''/repo/dist'' \<mapsto> RegularFile)) ''/'' ''/repo/dist'' ''/repo''
     = Inr False \<and>
   isIgnored dist_filter (\<lambda>p. Some Directory) ''/'' ''/repo/dist'' ''/repo'' = Inr True"
proof -
  have n: "normalizePathForIgnore ''/'' ''/repo/dist'' ''/repo'' = ''dist''"
    by (simp add: normalizePathForIgnore_def relative_def resolve_def Let_def)
  have f: "ignoreInstance dist_filter ''dist'' = Inr False"
    by (simp add: dist_filter_def ignorePackage_def isNotRelative_def dist_and_logs_def
        toLowerCase_def endsWith_def)
  have t: "ignoreInstance dist_filter ''dist/'' = Inr True"
    by (simp add: dist_filter_def ignorePackage_def isNotRelative_def dist_and_logs_def
        toLowerCase_def endsWith_def)
  have d: "isIgnored dist_filter (\<lambda>p. Some Directory) ''/'' ''/repo/dist'' ''/repo'' = Inr True"
    using n t by (simp add: isIgnored_def Let_def)
  have p: "(\<lambda>p. None) ''/repo/dist'' = (None :: file_kind option)"
    by simp
  note u = isIgnored_unstatable [where statSync = "\<lambda>p. None" and filePath = "''/repo/dist''"
        and flt = dist_filter and cwd = "''/''" and root = "''/repo''", OF p]
  have a: "isIgnored dist_filter (\<lambda>p. None) ''/'' ''/repo/dist'' ''/repo'' = Inr False"
    using u [THEN conjunct1] n f by simp
  have b: "isIgnored dist_filter ((\<lambda>p. None)(''/repo/dist'' \<mapsto> RegularFile)) ''/'' ''/repo/dist'' ''/repo''
      = Inr False"
    by (rule trans [OF u [THEN conjunct2, THEN conjunct1, symmetric] a])
  from a b d show ?thesis
    by (intro conjI)
qed

text \<open>
  C10 as stated fails twice. With no rule loaded, a path that does not exist and lies
  outside the root makes \<open>isIgnored\<close> throw: the instance refuses the relative path
  \<open>../../nonexistent\<close>. And the rule \<open>dist/\<close> does match a path that cannot be stat'ed, the
  missing file \<open>dist/missing.js\<close> below the directory.
\<close>

theorem isIgnored_unstatable_counterexample:
  "isIgnored no_rules_filter (\<lambda>p. None) ''/'' ''/nonexistent'' ''/tmp/osgrep'' = Inl RangeError \<and>
   isIgnored dist_filter (\<lambda>p. None) ''/'' ''/repo/dist/missing.js'' ''/repo'' = Inr True"
proof
  show "isIgnored no_rules_filter (\<lambda>p. None) ''/'' ''/nonexistent'' ''/tmp/osgrep'' = Inl RangeError"
    by (simp add: isIgnored_def normalizePathForIgnore_def relative_def resolve_def Let_def
        no_rules_filter_def ignorePackage_def isNotRelative_def)
  have n: "normalizePathForIgnore ''/'' ''/repo/dist/missing.js'' ''/repo'' = ''dist/missing.js''"
    by (simp add: normalizePathForIgnore_def relative_def resolve_def Let_def)
  have t: "ignoreInstance dist_filter ''dist/missing.js'' = Inr True"
    by (simp add: dist_filter_def ignorePackage_def isNotRelative_def dist_and_logs_def
        toLowerCase_def endsWith_def)
  show "isIgnored dist_filter (\<lambda>p. None) ''/'' ''/repo/dist/missing.js'' ''/repo'' = Inr True"
    using n t by (simp add: isIgnored_def Let_def)
qed

section \<open>The streamed file listing\<close>

text \<open>
  \<open>chunk.toString()\<close> decodes the bytes of one chunk as UTF-8 into UTF-16 code units. A
  byte sequence that is not the encoding of a character, and a sequence cut short by the
  end of the buffer, give the replacement character U+FFFD, one for each maximal
  ill-formed part. \<open>takeContinuation\<close> reads the continuation bytes that a lead byte
  announces; \<open>decodeOne\<close> decodes what starts at one byte and returns the rest.
\<close>

definition codeUnits :: "nat \<Rightarrow> jsstring" where
  "codeUnits cp =
     (if cp < 0x10000 then [cp]
      else [0xD800 + (cp - 0x10000) div 0x400, 0xDC00 + (cp - 0x10000) mod 0x400])"

fun takeContinuation :: "nat \<Rightarrow> nat \<Rightarrow> nat \<Rightarrow> nat \<Rightarrow> nat list \<Rightarrow> nat option \<times> nat list" where
  "takeContinuation 0 cp lower upper bs = (Some cp, bs)"
| "takeContinuation (Suc k) cp lower upper [] = (None, [])"
| "takeContinuation (Suc k) cp lower upper (b # bs) =
     (if lower \<le> b \<and> b \<le> upper then takeContinuation k (cp * 64 + b mod 64) 0x80 0xBF bs
      else (None, b # bs))"

lemma takeContinuation_length:
  "takeContinuation k cp lower upper bs = (r, rest) \<Longrightarrow> length rest \<le> length bs"
  by (induction k cp lower upper bs arbitrary: r rest rule: takeContinuation.induct)
     (auto split: if_splits)

definition decodeOne :: "nat \<Rightarrow> nat list \<Rightarrow> jsstring \<times> nat list" where
  "decodeOne b bs =
     (if b < 0x80 then ([b], bs)
      else
        (let (needed, lower, upper) =
               (if 0xC2 \<le> b \<and> b \<le> 0xDF then (1, 0x80, 0xBF)
                else if 0xE0 \<le> b \<and> b \<le> 0xEF then
                  (2, if b = 0xE0 then 0xA0 else 0x80, if b = 0xED then 0x9F else 0xBF)
                else if 0xF0 \<le> b \<and> b \<le> 0xF4 then
                  (3, if b = 0xF0 then 0x90 else 0x80, if b = 0xF4 then 0x8F else 0xBF)
                else (0::nat, 0::nat, 0::nat))
         in if needed = 0 then ([0xFFFD], bs)
            else
              (case takeContinuation needed
                      (if needed = 1 then b mod 32 else if needed = 2 then b mod 16 else b mod 8)
                      lower upper bs of
                 (Some cp, rest) \<Rightarrow> (codeUnits cp, rest)
               | (None, rest) \<Rightarrow> ([0xFFFD], rest))))"

lemma decodeOne_length: "decodeOne b bs = (units, rest) \<Longrightarrow> length rest \<le> length bs"
  by (auto simp: decodeOne_def Let_def split: if_splits prod.splits option.splits
      dest: takeContinuation_length)

function utf8Decode :: "nat list \<Rightarrow> jsstring" where
  "utf8Decode [] = []"
| "utf8Decode (b # bs) = (case decodeOne b bs of (units, rest) \<Rightarrow> units @ utf8Decode rest)"
  by pat_completeness auto
termination
  by (relation "measure length") (auto dest: decodeOne_length [OF sym] simp: less_Suc_eq_le)

definition toString :: "buffer \<Rightarrow> jsstring" where
  "toString buf = utf8Decode (map of_char buf)"

text \<open>
  The loop over the chunks of the standard output of \<open>git ls-files -z\<close>. The buffer holds
  the unfinished last record; the result is the list of the records yielded and the
  buffer left at the end of the stream. \<open>parts.pop()\<close> takes the last part, which \<open>split\<close>
  always gives.
\<close>

fun stdoutLoop :: "jsstring \<Rightarrow> buffer list \<Rightarrow> jsstring list \<times> jsstring" where
  "stdoutLoop buffer [] = ([], buffer)"
| "stdoutLoop buffer (data # chunks) =
     (let buffer1 = buffer @ toString data;
          parts = split_on 0 buffer1;
          buffer2 = last parts;
          parts1 = butlast parts
      in case stdoutLoop buffer2 chunks of
           (yielded, buffer3) \<Rightarrow> (filter (\<lambda>file. file \<noteq> []) parts1 @ yielded, buffer3))"

text \<open>
  The sequence that \<open>getGitFiles\<close> yields for the chunks that the child process writes;
  \<open>path.join\<close> is a parameter. The wait for the exit of the process, which follows the
  last record, yields nothing and is not part of the sequence.
\<close>

definition getGitFiles :: "('d \<Rightarrow> jsstring \<Rightarrow> 'p) \<Rightarrow> 'd \<Rightarrow> buffer list \<Rightarrow> 'p list" where
  "getGitFiles join dirRoot chunks =
     (case stdoutLoop [] chunks of
        (yielded, buffer) \<Rightarrow>
          map (join dirRoot) (yielded @ (if buffer \<noteq> [] then [buffer] else [])))"

subsection \<open>Properties of the listing\<close>

text \<open>
  With the text decoded chunk by chunk, the records yielded are the non-empty records of
  the concatenated text: the reassembly of the loop is right on text. The result is the
  one of a single chunk whenever decoding commutes with the concatenation of the chunks,
  that is whenever no boundary falls inside the encoding of a character.
\<close>

lemma split_on_nonempty: "split_on sep xs \<noteq> []"
  by (induction xs) (auto split: list.splits)

lemma split_on_append:
  "split_on sep (xs @ ys) = butlast (split_on sep xs) @ split_on sep (last (split_on sep xs) @ ys)"
proof (induction xs)
  case Nil
  show ?case by simp
next
  case (Cons x xs)
  show ?case
  proof (cases "x = sep")
    case True
    then show ?thesis
      using Cons.IH split_on_nonempty [of sep xs] by simp
  next
    case False
    obtain p ps where s: "split_on sep xs = p # ps"
      using split_on_nonempty [of sep xs] by (cases "split_on sep xs") auto
    show ?thesis
    proof (cases ps)
      case Nil
      with s False Cons.IH show ?thesis
        by (auto split: list.splits simp: split_on_nonempty)
    next
      case (Cons q qs)
      with s False Cons.IH show ?thesis
        by (auto split: list.splits)
    qed
  qed
qed

lemma last_split_on_free: "sep \<notin> set (last (split_on sep xs))"
  by (induction xs) (auto split: list.splits simp: split_on_nonempty)

lemma split_on_free: "sep \<notin> set xs \<Longrightarrow> split_on sep xs = [xs]"
  by (induction xs) auto

lemma stdoutLoop_records:
  "0 \<notin> set buffer \<Longrightarrow>
   stdoutLoop buffer chunks =
     (filter (\<lambda>file. file \<noteq> []) (butlast (split_on 0 (buffer @ concat (map toString chunks)))),
      last (split_on 0 (buffer @ concat (map toString chunks))))"
proof (induction chunks arbitrary: buffer)
  case Nil
  then show ?case by (simp add: split_on_free)
next
  case (Cons c chunks)
  let ?parts = "split_on 0 (buffer @ toString c)"
  let ?t = "concat (map toString chunks)"
  have free: "0 \<notin> set (last ?parts)"
    by (rule last_split_on_free)
  have app: "split_on 0 (buffer @ toString c @ ?t)
      = butlast ?parts @ split_on 0 (last ?parts @ ?t)"
    using split_on_append [of 0 "buffer @ toString c" ?t] by simp
  have ne: "split_on 0 (last ?parts @ ?t) \<noteq> []"
    by (rule split_on_nonempty)
  show ?case
    by (simp add: Let_def Cons.IH [OF free] app ne butlast_append)
qed

lemma filter_butlast_last:
  "xs \<noteq> [] \<Longrightarrow> filter P xs = filter P (butlast xs) @ (if P (last xs) then [last xs] else [])"
  by (cases xs rule: rev_cases) auto

lemma getGitFiles_records:
  "getGitFiles join dirRoot chunks =
     map (join dirRoot) (filter (\<lambda>file. file \<noteq> []) (split_on 0 (concat (map toString chunks))))"
proof -
  let ?s = "split_on 0 (concat (map toString chunks))"
  have ne: "?s \<noteq> []"
    by (rule split_on_nonempty)
  have loop: "stdoutLoop [] chunks = (filter (\<lambda>file. file \<noteq> []) (butlast ?s), last ?s)"
    using stdoutLoop_records [of "[]" chunks] by simp
  show ?thesis
    unfolding getGitFiles_def loop filter_butlast_last [OF ne] by simp
qed

lemma getGitFiles_boundaries:
  "toString (concat chunks) = concat (map toString chunks) \<Longrightarrow>
   getGitFiles join dirRoot chunks = getGitFiles join dirRoot [concat chunks]"
  by (simp add: getGitFiles_records)

lemma utf8_samples:
  "utf8Decode [0xE2, 0x82, 0xAC, 0xF0, 0x9F, 0x98, 0x80, 0xED, 0xA0, 0x80, 0xC0, 0x80]
     = [0x20AC, 0xD83D, 0xDE00, 0xFFFD, 0xFFFD, 0xFFFD, 0xFFFD, 0xFFFD]"
  by (simp add: decodeOne_def codeUnits_def numeral_2_eq_2 numeral_3_eq_3)

text \<open>
  C7. A boundary inside a character: the name \<open>f\<close>\<open>e\<close>-acute, whose second character is the
  two bytes C3 A9, arrives in two chunks cut between those bytes. Each chunk is decoded
  on its own, both halves become U+FFFD, and the path yielded is not the one yielded
  when the same bytes arrive in one chunk.
\<close>

theorem getGitFiles_split_character:
  "getGitFiles Pair ''/repo'' [[CHR 0x66, CHR 0xC3], [CHR 0xA9, CHR 0x00]]
     = [(''/repo'', [0x66, 0xFFFD, 0xFFFD])] \<and>
   getGitFiles Pair ''/repo'' [[CHR 0x66, CHR 0xC3, CHR 0xA9, CHR 0x00]]
     = [(''/repo'', [0x66, 0xE9])]"
  by (simp add: getGitFiles_def toString_def decodeOne_def codeUnits_def Let_def)

section \<open>The synchronisation with the remote store\<close>

subsection \<open>The remote store\<close>

text \<open>
  The values that the listing of the store carries in the metadata of a file, as far as
  the program inspects them.
\<close>

datatype jsvalue =
    JUndefined
  | JNull
  | JBoolean bool
  | JNumber int
  | JString string
  | JObject "(string \<times> jsvalue) list"

text \<open>
  One entry of a page, a page, and the request of an upload. \<open>external_id\<close> and
  \<open>last_cursor\<close> are \<open>None\<close> when the field is \<open>null\<close> or missing; \<open>pagination\<close> is
  \<open>None\<close> when the response has none.
\<close>

record store_file =
  external_id :: "string option"
  metadata :: jsvalue

record page_info =
  has_more :: bool
  last_cursor :: "string option"

record list_response =
  data :: "store_file list"
  pagination :: "page_info option"

datatype upload_body = ReadStream string | FileBlob buffer string

record upload_options =
  opt_external_id :: string
  opt_overwrite :: bool
  opt_metadata_path :: string
  opt_metadata_hash :: string

text \<open>
  The client of the store is not part of the program. It is taken as two functions on a
  state of the store of any type: listing a page of a store after a cursor, and
  uploading a body under options, which gives the outcome and the state of the store
  afterwards.
\<close>

record 'r client =
  files_list :: "'r \<Rightarrow> string \<Rightarrow> nat \<Rightarrow> string option \<Rightarrow> error + list_response"
  files_upload :: "'r \<Rightarrow> string \<Rightarrow> upload_body \<Rightarrow> upload_options \<Rightarrow> (error + unit) \<times> 'r"

type_synonym hash_map = "string \<rightharpoonup> string option"

subsection \<open>Listing the hashes of the store\<close>

text \<open>
  \<open>truthy\<close> is the truth value of a value in a condition, \<open>property\<close> the read of a
  property, \<open>nonEmpty\<close> the truth value of an optional string. \<open>hashOf\<close> is the hash that
  the loop reads from the metadata of an entry: the property \<open>hash\<close> when it is a string.
\<close>

definition truthy :: "jsvalue \<Rightarrow> bool" where
  "truthy v =
     (case v of
        JUndefined \<Rightarrow> False
      | JNull \<Rightarrow> False
      | JBoolean b \<Rightarrow> b
      | JNumber n \<Rightarrow> n \<noteq> 0
      | JString s \<Rightarrow> s \<noteq> []
      | JObject kvs \<Rightarrow> True)"

definition property :: "jsvalue \<Rightarrow> string \<Rightarrow> jsvalue" where
  "property v k =
     (case v of
        JObject kvs \<Rightarrow> (case map_of kvs k of None \<Rightarrow> JUndefined | Some x \<Rightarrow> x)
      | _ \<Rightarrow> JUndefined)"

definition hashOf :: "jsvalue \<Rightarrow> string option" where
  "hashOf md =
     (let metadata = (if truthy md then md else JObject []) in
      case property metadata ''hash'' of
        JString h \<Rightarrow> Some h
      | _ \<Rightarrow> None)"

definition nonEmpty :: "string option \<Rightarrow> bool" where
  "nonEmpty s = (case s of None \<Rightarrow> False | Some x \<Rightarrow> x \<noteq> [])"

text \<open>The loop over the entries of one page: entries without an identifier are skipped.\<close>

fun pageLoop :: "store_file list \<Rightarrow> hash_map \<Rightarrow> hash_map" where
  "pageLoop [] byExternalId = byExternalId"
| "pageLoop (f # fs) byExternalId =
     (case external_id f of
        None \<Rightarrow> pageLoop fs byExternalId
      | Some externalId \<Rightarrow>
          if externalId = [] then pageLoop fs byExternalId
          else pageLoop fs (byExternalId(externalId \<mapsto> hashOf (metadata f))))"

text \<open>The cursor for the next request, as the end of the loop body computes it.\<close>

definition nextAfter :: "list_response \<Rightarrow> string option" where
  "nextAfter resp =
     (case pagination resp of
        None \<Rightarrow> None
      | Some p \<Rightarrow> if has_more p then last_cursor p else None)"

text \<open>
  The \<open>do ... while (after)\<close> loop. The fuel is the number of requests it may make; a
  request that throws ends the loop with the exception.
\<close>

fun listLoop ::
  "nat \<Rightarrow> (string option \<Rightarrow> error + list_response) \<Rightarrow> string option \<Rightarrow> hash_map
     \<Rightarrow> (error + hash_map) option" where
  "listLoop 0 list after byExternalId = None"
| "listLoop (Suc n) list after byExternalId =
     (case list after of
        Inl e \<Rightarrow> Some (Inl e)
      | Inr resp \<Rightarrow>
          (let byExternalId1 = pageLoop (data resp) byExternalId;
               after1 = nextAfter resp
           in if nonEmpty after1 then listLoop n list after1 byExternalId1
              else Some (Inr byExternalId1)))"

definition listStoreFileHashes ::
  "nat \<Rightarrow> 'r client \<Rightarrow> 'r \<Rightarrow> string \<Rightarrow> (error + hash_map) option" where
  "listStoreFileHashes n cl r store =
     listLoop n (\<lambda>after. files_list cl r store 100 after) None Map.empty"

subsection \<open>The files of the repository\<close>

text \<open>
  What the synchronisation finds on the machine: the output of \<open>git ls-files\<close> for a
  working directory and arguments (\<open>None\<close> when the process could not be started), the
  exit status of \<open>git check-ignore\<close> (or the exception of starting it), the kind of a
  path, the content of a file (or the exception of reading it), and the digest of a
  buffer, SHA-256 in hexadecimal in the program.
\<close>

record sync_env =
  git_ls_files :: "string \<Rightarrow> string list \<Rightarrow> string option"
  git_check_ignore :: "string \<Rightarrow> string \<Rightarrow> error + nat"
  statSync :: stat_fn
  readFile :: "string \<Rightarrow> error + buffer"
  computeBufferHash :: "buffer \<Rightarrow> string"

text \<open>
  \<open>path.join\<close> and \<open>path.normalize\<close> of the POSIX flavour. In a relative path a \<open>..\<close>
  that has nothing to remove is kept. Neither ever returns the empty string.
\<close>

fun normalizeRelative :: "string list \<Rightarrow> string list \<Rightarrow> string list" where
  "normalizeRelative acc [] = rev acc"
| "normalizeRelative acc (s # ss) =
     (if s = [] \<or> s = ''.'' then normalizeRelative acc ss
      else if s = ''..'' then
        (case acc of
           [] \<Rightarrow> normalizeRelative [''..''] ss
         | a # as \<Rightarrow>
             if a = ''..'' then normalizeRelative (''..'' # a # as) ss
             else normalizeRelative as ss)
      else normalizeRelative (s # acc) ss)"

definition normalize :: "string \<Rightarrow> string" where
  "normalize p =
     (if p = [] then ''.''
      else
        (let isAbsolute = (hd p = CHR ''/'');
             trailingSeparator = (last p = CHR ''/'');
             segments = split_on (CHR ''/'') p;
             body = joinSegments (if isAbsolute then normalizeSegments [] segments
                                  else normalizeRelative [] segments)
         in if body = [] then (if isAbsolute then ''/'' else if trailingSeparator then ''./'' else ''.'')
            else (if isAbsolute then ''/'' else []) @ body @ (if trailingSeparator then ''/'' else [])))"

definition pathJoin :: "string \<Rightarrow> string \<Rightarrow> string" where
  "pathJoin a b =
     (let joined = (if a = [] then b else if b = [] then a else a @ ''/'' @ b) in
      if joined = [] then ''.'' else normalize joined)"

definition basename :: "string \<Rightarrow> string" where
  "basename p = lastSegment p"

text \<open>
  \<open>Array.from(new Set(xs))\<close> keeps the first occurrence of every element, in the order of
  insertion.
\<close>

definition setOrder :: "'a list \<Rightarrow> 'a list" where
  "setOrder xs = rev (remdups (rev xs))"

definition NUL :: char where
  "NUL = CHR 0x00"

definition getGitRepoFiles :: "sync_env \<Rightarrow> string \<Rightarrow> string list" where
  "getGitRepoFiles env repoRoot =
     (let run = (\<lambda>args. case git_ls_files env repoRoot args of None \<Rightarrow> [] | Some out \<Rightarrow> out);
          tracked = filter (\<lambda>s. s \<noteq> []) (split_on NUL (run [''ls-files'', ''-z'']));
          untracked = filter (\<lambda>s. s \<noteq> [])
            (split_on NUL (run [''ls-files'', ''--others'', ''--exclude-standard'', ''-z'']));
          allRel = setOrder (tracked @ untracked)
      in map (\<lambda>rel. pathJoin repoRoot rel) allRel)"

definition isIgnoredByGit :: "sync_env \<Rightarrow> string \<Rightarrow> string \<Rightarrow> bool" where
  "isIgnoredByGit env filePath repoRoot =
     (case git_check_ignore env repoRoot filePath of
        Inl e \<Rightarrow> False
      | Inr status \<Rightarrow> status = 0)"

definition filterRepoFiles :: "sync_env \<Rightarrow> string list \<Rightarrow> string \<Rightarrow> string list" where
  "filterRepoFiles env files repoRoot =
     filter (\<lambda>filePath.
        (case statSync env filePath of
           None \<Rightarrow> False
         | Some k \<Rightarrow> k = RegularFile) \<and> \<not> isIgnoredByGit env filePath repoRoot) files"

definition repoFilesOf :: "sync_env \<Rightarrow> string \<Rightarrow> string list" where
  "repoFilesOf env repoRoot = filterRepoFiles env (getGitRepoFiles env repoRoot) repoRoot"

subsection \<open>The synchronisation\<close>

text \<open>
  \<open>sync_info\<close> is the record given to \<open>onProgress\<close> and, without a path, the result of
  \<open>initialSync\<close>. \<open>run\<close> is the state of one run: the counters \<open>processed\<close> and
  \<open>uploaded\<close> of the program (\<open>counted\<close> and \<open>sent\<close> here), the state of the store, the
  calls of \<open>onProgress\<close> so far and the upload requests made so far.
\<close>

record sync_info =
  processed :: nat
  uploaded :: nat
  total :: nat
  filePath :: "string option"

record 'r run =
  counted :: nat
  sent :: nat
  remote :: 'r
  progress :: "sync_info list"
  requests :: "(upload_body \<times> upload_options) list"

text \<open>
  \<open>uploadFile\<close>: an empty file is not uploaded; otherwise the file is uploaded as a
  stream and, when that throws, once more from the buffer. An exception of the read or
  of the second upload leaves \<open>uploadFile\<close>.
\<close>

definition uploadFile ::
  "sync_env \<Rightarrow> 'r client \<Rightarrow> string \<Rightarrow> string \<Rightarrow> string \<Rightarrow> 'r run \<Rightarrow> (error + bool) \<times> 'r run" where
  "uploadFile env cl store path fileName st =
     (case readFile env path of
        Inl e \<Rightarrow> (Inl e, st)
      | Inr buffer \<Rightarrow>
          if length buffer = 0 then (Inr False, st)
          else
            (let hash = computeBufferHash env buffer;
                 options = \<lparr> opt_external_id = path, opt_overwrite = True,
                             opt_metadata_path = path, opt_metadata_hash = hash \<rparr>
             in case files_upload cl (remote st) store (ReadStream path) options of
                  (Inr u, r1) \<Rightarrow>
                    (Inr True, st\<lparr> remote := r1,
                                   requests := requests st @ [(ReadStream path, options)] \<rparr>)
                | (Inl err, r1) \<Rightarrow>
                    (case files_upload cl r1 store (FileBlob buffer fileName) options of
                       (Inr u, r2) \<Rightarrow>
                         (Inr True, st\<lparr> remote := r2,
                             requests := requests st @ [(ReadStream path, options),
                                                        (FileBlob buffer fileName, options)] \<rparr>)
                     | (Inl err2, r2) \<Rightarrow>
                         (Inl err2, st\<lparr> remote := r2,
                             requests := requests st @ [(ReadStream path, options),
                                                        (FileBlob buffer fileName, options)] \<rparr>))))"

definition report :: "nat \<Rightarrow> string \<Rightarrow> 'r run \<Rightarrow> 'r run" where
  "report n path st =
     st\<lparr> progress := progress st @
          [\<lparr> processed = counted st, uploaded = sent st, total = n, filePath = Some path \<rparr>] \<rparr>"

definition existingHashOf :: "hash_map \<Rightarrow> string \<Rightarrow> string option" where
  "existingHashOf storeHashes path = (case storeHashes path of None \<Rightarrow> None | Some h \<Rightarrow> h)"

text \<open>
  The work on one file, the body of the function given to the limiter. The read and the
  upload are inside one \<open>try\<close>; the \<open>catch\<close> reports progress and nothing else. The files
  are taken one after the other: the tasks share the two counters only, which they
  change between two points of suspension. The source starts the tasks of all the files
  together; of its schedules this is the one in which every task ends before the next
  one begins, and the snapshots handed to \<open>onProgress\<close> are those of this order.
\<close>

definition syncFile ::
  "sync_env \<Rightarrow> 'r client \<Rightarrow> string \<Rightarrow> hash_map \<Rightarrow> nat \<Rightarrow> string \<Rightarrow> 'r run \<Rightarrow> 'r run" where
  "syncFile env cl store storeHashes n path st =
     (case readFile env path of
        Inl e \<Rightarrow> report n path st
      | Inr buffer \<Rightarrow>
          (let hash = computeBufferHash env buffer;
               existingHash = existingHashOf storeHashes path;
               st1 = st\<lparr> counted := counted st + 1 \<rparr>
           in if \<not> nonEmpty existingHash \<or> existingHash \<noteq> Some hash then
                (case uploadFile env cl store path (basename path) st1 of
                   (Inl e, st2) \<Rightarrow> report n path st2
                 | (Inr didUpload, st2) \<Rightarrow>
                     report n path (if didUpload then st2\<lparr> sent := sent st2 + 1 \<rparr> else st2))
              else report n path st1))"

definition initialSync ::
  "nat \<Rightarrow> sync_env \<Rightarrow> 'r client \<Rightarrow> 'r \<Rightarrow> string \<Rightarrow> string \<Rightarrow> (error + sync_info \<times> 'r run) option" where
  "initialSync fuel env cl r store repoRoot =
     (case listStoreFileHashes fuel cl r store of
        None \<Rightarrow> None
      | Some (Inl e) \<Rightarrow> Some (Inl e)
      | Some (Inr storeHashes) \<Rightarrow>
          (let repoFiles = filterRepoFiles env (getGitRepoFiles env repoRoot) repoRoot;
               n = length repoFiles;
               st = fold (syncFile env cl store storeHashes n) repoFiles
                      \<lparr> counted = 0, sent = 0, remote = r, progress = [], requests = [] \<rparr>
           in Some (Inr (\<lparr> processed = counted st, uploaded = sent st, total = n, filePath = None \<rparr>,
                         st))))"

subsection \<open>The listing in the words of the specification\<close>

text \<open>
  \<open>pagePairs\<close> are the pairs of identifier and hash that a page lists. A page continues
  when it reports more pages and carries a non-empty cursor. \<open>served list after pages\<close>
  says that \<open>pages\<close> are the answers of \<open>list\<close> to the chain of requests that starts at
  \<open>after\<close>, every page but the last continuing and its cursor being the next request.
  \<open>listedHashes\<close> maps every identifier to the hash of its last listing.
\<close>

definition pagePairs :: "store_file list \<Rightarrow> (string \<times> string option) list" where
  "pagePairs fs =
     concat (map (\<lambda>f. case external_id f of
                          None \<Rightarrow> []
                        | Some i \<Rightarrow> if i = [] then [] else [(i, hashOf (metadata f))]) fs)"

definition continues :: "list_response \<Rightarrow> bool" where
  "continues resp =
     (case pagination resp of
        None \<Rightarrow> False
      | Some p \<Rightarrow> has_more p \<and> (case last_cursor p of None \<Rightarrow> False | Some c \<Rightarrow> c \<noteq> []))"

definition cursorOf :: "list_response \<Rightarrow> string option" where
  "cursorOf resp = (case pagination resp of None \<Rightarrow> None | Some p \<Rightarrow> last_cursor p)"

fun served ::
  "(string option \<Rightarrow> error + list_response) \<Rightarrow> string option \<Rightarrow> list_response list \<Rightarrow> bool" where
  "served list after [] = False"
| "served list after [p] = (list after = Inr p \<and> \<not> continues p)"
| "served list after (p # q # ps) =
     (list after = Inr p \<and> continues p \<and> served list (cursorOf p) (q # ps))"

definition listedHashes :: "list_response list \<Rightarrow> hash_map" where
  "listedHashes pages = map_of (rev (concat (map (\<lambda>p. pagePairs (data p)) pages)))"

subsection \<open>Notions for the two runs\<close>

text \<open>
  \<open>wants\<close>: the file is read, is not empty and its digest is not the hash listed for it.
  A client is reliable when no upload fails. It is faithful for a view of the state of
  the store when the listing, as \<open>listStoreFileHashes\<close> consumes it, gives the view, and
  an upload that succeeds records the hash of its metadata under its identifier.
\<close>

definition wants :: "sync_env \<Rightarrow> hash_map \<Rightarrow> string \<Rightarrow> bool" where
  "wants env storeHashes path =
     (case readFile env path of
        Inl e \<Rightarrow> False
      | Inr buffer \<Rightarrow>
          buffer \<noteq> [] \<and>
          (\<not> nonEmpty (existingHashOf storeHashes path) \<or>
           existingHashOf storeHashes path \<noteq> Some (computeBufferHash env buffer)))"

definition digestOf :: "sync_env \<Rightarrow> string \<Rightarrow> string" where
  "digestOf env path =
     (case readFile env path of Inl e \<Rightarrow> [] | Inr buffer \<Rightarrow> computeBufferHash env buffer)"

definition reliable :: "'r client \<Rightarrow> string \<Rightarrow> bool" where
  "reliable cl store = (\<forall>r body options. fst (files_upload cl r store body options) = Inr ())"

definition faithful :: "'r client \<Rightarrow> string \<Rightarrow> ('r \<Rightarrow> hash_map) \<Rightarrow> bool" where
  "faithful cl store view \<longleftrightarrow>
     (\<forall>r. \<exists>n. listStoreFileHashes n cl r store = Some (Inr (view r))) \<and>
     (\<forall>r body options r'.
        files_upload cl r store body options = (Inr (), r') \<and> opt_external_id options \<noteq> [] \<longrightarrow>
        view r' = (view r)(opt_external_id options \<mapsto> Some (opt_metadata_hash options)))"

text \<open>
  The terms of the proofs: what a run records in the view of the store for one file, the
  state in which a run starts, the result made from the state in which it ends, and the
  run over the candidate files for a given listing.
\<close>

definition record_upload :: "sync_env \<Rightarrow> hash_map \<Rightarrow> string \<Rightarrow> hash_map \<Rightarrow> hash_map" where
  "record_upload env m p v = (if wants env m p then v(p \<mapsto> Some (digestOf env p)) else v)"

definition startOf :: "'r \<Rightarrow> 'r run" where
  "startOf r = \<lparr> counted = 0, sent = 0, remote = r, progress = [], requests = [] \<rparr>"

definition outcomeOf :: "nat \<Rightarrow> 'r run \<Rightarrow> sync_info \<times> 'r run" where
  "outcomeOf n st = (\<lparr> processed = counted st, uploaded = sent st, total = n, filePath = None \<rparr>, st)"

definition syncAll :: "sync_env \<Rightarrow> 'r client \<Rightarrow> string \<Rightarrow> string \<Rightarrow> hash_map \<Rightarrow> 'r \<Rightarrow> sync_info \<times> 'r run" where
  "syncAll env cl store repoRoot m r =
     outcomeOf (length (repoFilesOf env repoRoot))
       (fold (syncFile env cl store m (length (repoFilesOf env repoRoot)))
          (repoFilesOf env repoRoot) (startOf r))"

text \<open>
  Between two runs a file has changed to content when it can be read in the second run,
  is not empty there, and was not read with the same bytes in the first run. A file is
  unrecorded by a run when the run cannot read it or reads it empty.
\<close>

definition changedToContent :: "sync_env \<Rightarrow> (string \<Rightarrow> error + buffer) \<Rightarrow> string \<Rightarrow> bool" where
  "changedToContent env1 readFile2 path =
     (case readFile2 path of
        Inl e \<Rightarrow> False
      | Inr buffer \<Rightarrow> buffer \<noteq> [] \<and> readFile env1 path \<noteq> Inr buffer)"

definition unrecorded :: "sync_env \<Rightarrow> string \<Rightarrow> bool" where
  "unrecorded env path = (case readFile env path of Inl e \<Rightarrow> True | Inr buffer \<Rightarrow> buffer = [])"

text \<open>A file is readable when reading it does not throw.\<close>

definition readable :: "sync_env \<Rightarrow> string \<Rightarrow> bool" where
  "readable env path = (case readFile env path of Inl e \<Rightarrow> False | Inr buffer \<Rightarrow> True)"

subsection \<open>Sample stores and repositories\<close>

text \<open>
  Two pages of a listing, a client that serves them, and a client whose page reports
  more pages and carries no cursor.
\<close>

definition page_one :: list_response where
  "page_one =
     \<lparr> data = [\<lparr> external_id = Some ''/repo/a.ts'', metadata = JObject [(''path'', JString ''/repo/a.ts''), (''hash'', JString ''h1'')] \<rparr>,
               \<lparr> external_id = None, metadata = JObject [(''hash'', JString ''h0'')] \<rparr>,
               \<lparr> external_id = Some ''/repo/b.ts'', metadata = JObject [(''hash'', JNumber 7)] \<rparr>],
       pagination = Some \<lparr> has_more = True, last_cursor = Some ''c1'' \<rparr> \<rparr>"

definition page_two :: list_response where
  "page_two =
     \<lparr> data = [\<lparr> external_id = Some ''/repo/a.ts'', metadata = JObject [(''hash'', JString ''h2'')] \<rparr>,
               \<lparr> external_id = Some [], metadata = JObject [(''hash'', JString ''h4'')] \<rparr>,
               \<lparr> external_id = Some ''/repo/c.ts'', metadata = JNull \<rparr>],
       pagination = Some \<lparr> has_more = False, last_cursor = Some ''c2'' \<rparr> \<rparr>"

definition paged_client :: "unit client" where
  "paged_client =
     \<lparr> files_list = (\<lambda>r store limit after.
          if after = None then Inr page_one
          else if after = Some ''c1'' then Inr page_two
          else Inl ListError),
       files_upload = (\<lambda>r store body options. (Inl UploadError, r)) \<rparr>"

definition stalled_client :: "unit client" where
  "stalled_client =
     \<lparr> files_list = (\<lambda>r store limit after.
          Inr (page_one\<lparr> pagination := Some \<lparr> has_more = True, last_cursor = None \<rparr> \<rparr>)),
       files_upload = (\<lambda>r store body options. (Inl UploadError, r)) \<rparr>"

text \<open>
  A store in memory that lists all its files in one page and overwrites on upload, the
  same store with a number of uploads that fail first, and a repository of three files
  with a stand-in for the digest.
\<close>

definition entryOf :: "upload_options \<Rightarrow> store_file" where
  "entryOf options =
     \<lparr> external_id = Some (opt_external_id options),
       metadata = JObject [(''path'', JString (opt_metadata_path options)),
                           (''hash'', JString (opt_metadata_hash options))] \<rparr>"

definition single_page :: "store_file list \<Rightarrow> list_response" where
  "single_page fs = \<lparr> data = fs, pagination = Some \<lparr> has_more = False, last_cursor = None \<rparr> \<rparr>"

definition overwrite :: "upload_options \<Rightarrow> store_file list \<Rightarrow> store_file list" where
  "overwrite options fs =
     filter (\<lambda>f. external_id f \<noteq> Some (opt_external_id options)) fs @ [entryOf options]"

definition steady_client :: "store_file list client" where
  "steady_client =
     \<lparr> files_list = (\<lambda>r store limit after. Inr (single_page r)),
       files_upload = (\<lambda>r store body options. (Inr (), overwrite options r)) \<rparr>"

record flaky_remote =
  entries :: "store_file list"
  outages :: nat

definition flaky_client :: "flaky_remote client" where
  "flaky_client =
     \<lparr> files_list = (\<lambda>r store limit after. Inr (single_page (entries r))),
       files_upload = (\<lambda>r store body options.
          if 0 < outages r then (Inl NetworkError, r\<lparr> outages := outages r - 1 \<rparr>)
          else (Inr (), r\<lparr> entries := overwrite options (entries r) \<rparr>)) \<rparr>"

definition steady_view :: "store_file list \<Rightarrow> hash_map" where
  "steady_view r = pageLoop r Map.empty"

definition toy_digest :: "buffer \<Rightarrow> string" where
  "toy_digest b = ''sha256:'' @ b"

definition repo_env :: "(string \<Rightarrow> error + buffer) \<Rightarrow> sync_env" where
  "repo_env rf =
     \<lparr> git_ls_files = (\<lambda>cwd args.
          if args = [''ls-files'', ''-z''] then Some (''a.ts'' @ [NUL] @ ''b.ts'' @ [NUL])
          else Some (''notes.md'' @ [NUL])),
       git_check_ignore = (\<lambda>repoRoot path. Inr 1),
       statSync = (\<lambda>path. Some RegularFile),
       readFile = rf,
       computeBufferHash = toy_digest \<rparr>"

definition first_contents :: "string \<Rightarrow> error + buffer" where
  "first_contents path =
     (if path = ''/repo/a.ts'' then Inr ''let a''
      else if path = ''/repo/b.ts'' then Inr []
      else if path = ''/repo/notes.md'' then Inr ''todo''
      else Inl ReadError)"

definition second_contents :: "string \<Rightarrow> error + buffer" where
  "second_contents path =
     (if path = ''/repo/a.ts'' then Inr ''let a''
      else if path = ''/repo/b.ts'' then Inr ''let b''
      else if path = ''/repo/notes.md'' then Inr []
      else Inl ReadError)"

definition locked_contents :: "string \<Rightarrow> error + buffer" where
  "locked_contents path =
     (if path = ''/repo/a.ts'' then Inr ''let a''
      else if path = ''/repo/notes.md'' then Inr ''todo''
      else Inl ReadError)"

definition first_store :: "store_file list" where
  "first_store =
     [entryOf \<lparr> opt_external_id = ''/repo/a.ts'', opt_overwrite = True,
                opt_metadata_path = ''/repo/a.ts'', opt_metadata_hash = ''sha256:let a'' \<rparr>,
      entryOf \<lparr> opt_external_id = ''/repo/notes.md'', opt_overwrite = True,
                opt_metadata_path = ''/repo/notes.md'', opt_metadata_hash = ''sha256:todo'' \<rparr>]"

subsection \<open>Properties of the listing of the store\<close>

lemma pagePairs_Cons:
  "pagePairs (f # fs) =
     (case external_id f of
        None \<Rightarrow> []
      | Some i \<Rightarrow> if i = [] then [] else [(i, hashOf (metadata f))]) @ pagePairs fs"
  by (simp add: pagePairs_def)

lemma pageLoop_apply:
  "pageLoop fs m k = (case map_of (rev (pagePairs fs)) k of None \<Rightarrow> m k | Some v \<Rightarrow> Some v)"
proof (induction fs arbitrary: m)
  case Nil
  show ?case by (simp add: pagePairs_def)
next
  case (Cons f fs)
  show ?case
    by (cases "external_id f")
       (simp_all add: pagePairs_Cons Cons.IH map_add_def split: option.splits)
qed

lemma pageLoop_map_of: "pageLoop fs m = m ++ map_of (rev (pagePairs fs))"
  by (rule ext) (simp add: pageLoop_apply map_add_def)

lemma nonEmpty_nextAfter: "nonEmpty (nextAfter resp) \<longleftrightarrow> continues resp"
  by (simp add: nonEmpty_def nextAfter_def continues_def split: option.splits)

lemma nextAfter_cursorOf: "continues resp \<Longrightarrow> nextAfter resp = cursorOf resp"
  by (simp add: nextAfter_def continues_def cursorOf_def split: option.splits)

lemma listLoop_served:
  "served list after pages \<Longrightarrow>
   listLoop n list after m =
     (if n < length pages then None
      else Some (Inr (m ++ map_of (rev (concat (map (\<lambda>p. pagePairs (data p)) pages))))))"
proof (induction list after pages arbitrary: n m rule: served.induct)
  case (1 list after)
  then show ?case by simp
next
  case (2 list after p)
  then show ?case
    by (cases n) (simp_all add: nonEmpty_nextAfter pageLoop_map_of Let_def)
next
  case (3 list after p q ps)
  from "3.prems" have a: "list after = Inr p" and c: "continues p"
    and s: "served list (cursorOf p) (q # ps)"
    by simp_all
  show ?case
  proof (cases n)
    case 0
    then show ?thesis by simp
  next
    case (Suc k)
    have ne: "nonEmpty (nextAfter p)"
      using c by (simp add: nonEmpty_nextAfter)
    have nx: "nextAfter p = cursorOf p"
      using c by (rule nextAfter_cursorOf)
    have "listLoop (Suc k) list after m = listLoop k list (cursorOf p) (pageLoop (data p) m)"
      using a ne nx by (simp add: Let_def)
    also have "\<dots> = (if k < length (q # ps) then None
        else Some (Inr (pageLoop (data p) m
               ++ map_of (rev (concat (map (\<lambda>p. pagePairs (data p)) (q # ps)))))))"
      by (rule "3.IH" [OF s])
    finally show ?thesis
      using Suc by (simp add: pageLoop_map_of map_add_assoc)
  qed
qed

subsection \<open>Properties of the synchronisation\<close>

lemma normalize_nonempty: "normalize p \<noteq> []"
  by (simp add: normalize_def Let_def)

lemma pathJoin_nonempty: "pathJoin a b \<noteq> []" "[] \<noteq> pathJoin a b"
  by (simp_all add: pathJoin_def Let_def normalize_nonempty normalize_nonempty [symmetric])

lemma repoFilesOf_nonempty: "[] \<notin> set (repoFilesOf env repoRoot)"
  by (auto simp: repoFilesOf_def filterRepoFiles_def getGitRepoFiles_def Let_def pathJoin_nonempty)

lemma report_fields [simp]:
  "sent (report n p st) = sent st" "remote (report n p st) = remote st"
  "requests (report n p st) = requests st" "counted (report n p st) = counted st"
  by (simp_all add: report_def)

lemma syncFile_skip:
  assumes "\<not> wants env m p"
  shows "sent (syncFile env cl store m n p st) = sent st \<and>
         remote (syncFile env cl store m n p st) = remote st \<and>
         requests (syncFile env cl store m n p st) = requests st"
proof (cases "readFile env p")
  case (Inl e)
  then show ?thesis by (simp add: syncFile_def)
next
  case (Inr buffer)
  show ?thesis
  proof (cases "buffer = []")
    case True
    with Inr show ?thesis
      by (simp add: syncFile_def uploadFile_def Let_def)
  next
    case False
    with Inr assms have "nonEmpty (existingHashOf m p) \<and>
        existingHashOf m p = Some (computeBufferHash env buffer)"
      by (auto simp: wants_def)
    with Inr show ?thesis
      by (auto simp: syncFile_def Let_def)
  qed
qed

lemma syncFile_send:
  assumes rel: "reliable cl store" and w: "wants env m p"
  shows "\<exists>r'. files_upload cl (remote st) store (ReadStream p)
                 \<lparr> opt_external_id = p, opt_overwrite = True, opt_metadata_path = p,
                   opt_metadata_hash = digestOf env p \<rparr> = (Inr (), r') \<and>
              sent (syncFile env cl store m n p st) = sent st + 1 \<and>
              remote (syncFile env cl store m n p st) = r'"
proof -
  from w obtain buffer where rd: "readFile env p = Inr buffer" and ne: "buffer \<noteq> []"
    and cond: "\<not> nonEmpty (existingHashOf m p) \<or>
               existingHashOf m p \<noteq> Some (computeBufferHash env buffer)"
    by (auto simp: wants_def split: sum.splits)
  let ?o = "\<lparr> opt_external_id = p, opt_overwrite = True, opt_metadata_path = p,
              opt_metadata_hash = computeBufferHash env buffer \<rparr>"
  obtain x r' where up: "files_upload cl (remote st) store (ReadStream p) ?o = (x, r')"
    by (cases "files_upload cl (remote st) store (ReadStream p) ?o")
  with rel have x: "x = Inr ()"
    by (metis fst_conv reliable_def)
  have d: "digestOf env p = computeBufferHash env buffer"
    using rd by (simp add: digestOf_def)
  have "sent (syncFile env cl store m n p st) = sent st + 1 \<and>
        remote (syncFile env cl store m n p st) = r'"
    using rd ne cond up x by (auto simp: syncFile_def uploadFile_def Let_def)
  with up x d show ?thesis
    by auto
qed

lemma fold_skip:
  "\<forall>p\<in>set fs. \<not> wants env m p \<Longrightarrow>
   sent (fold (syncFile env cl store m n) fs st) = sent st \<and>
   remote (fold (syncFile env cl store m n) fs st) = remote st \<and>
   requests (fold (syncFile env cl store m n) fs st) = requests st"
proof (induction fs arbitrary: st)
  case Nil
  show ?case by simp
next
  case (Cons p fs)
  then have "\<not> wants env m p" and rest: "\<forall>q\<in>set fs. \<not> wants env m q"
    by simp_all
  from syncFile_skip [OF this(1), of cl store n st] Cons.IH [OF rest, of "syncFile env cl store m n p st"]
  show ?case by simp
qed

lemma fold_send:
  assumes rel: "reliable cl store" and fa: "faithful cl store view"
  shows "[] \<notin> set fs \<Longrightarrow>
         sent (fold (syncFile env cl store m n) fs st) = sent st + length (filter (wants env m) fs) \<and>
         view (remote (fold (syncFile env cl store m n) fs st))
           = fold (record_upload env m) fs (view (remote st))"
proof (induction fs arbitrary: st)
  case Nil
  show ?case by simp
next
  case (Cons p fs)
  then have pne: "p \<noteq> []" and rest: "[] \<notin> set fs"
    by auto
  let ?st1 = "syncFile env cl store m n p st"
  have step: "sent ?st1 = sent st + (if wants env m p then 1 else 0) \<and>
              view (remote ?st1) = record_upload env m p (view (remote st))"
  proof (cases "wants env m p")
    case True
    from syncFile_send [OF rel True, of st n] obtain r' where
      up: "files_upload cl (remote st) store (ReadStream p)
             \<lparr> opt_external_id = p, opt_overwrite = True, opt_metadata_path = p,
               opt_metadata_hash = digestOf env p \<rparr> = (Inr (), r')"
      and s: "sent ?st1 = sent st + 1" and r: "remote ?st1 = r'"
      by blast
    from fa up pne have "view r' = (view (remote st))(p \<mapsto> Some (digestOf env p))"
      unfolding faithful_def by fastforce
    with True s r show ?thesis
      by (simp add: record_upload_def)
  next
    case False
    with syncFile_skip [OF False, of cl store n st] show ?thesis
      by (simp add: record_upload_def)
  qed
  from step Cons.IH [OF rest, of ?st1] show ?case
    by simp
qed

lemma fold_record_upload:
  "fold (record_upload env m) fs v q =
     (if q \<in> set fs \<and> wants env m q then Some (Some (digestOf env q)) else v q)"
  by (induction fs arbitrary: v) (auto simp: record_upload_def)

lemma listLoop_unique:
  "listLoop n list after m = Some x \<Longrightarrow> listLoop n' list after m = Some y \<Longrightarrow> x = y"
proof (induction n arbitrary: n' after m)
  case 0
  then show ?case by simp
next
  case (Suc n)
  from Suc.prems(2) obtain k where n': "n' = Suc k"
    by (cases n') auto
  show ?case
  proof (cases "list after")
    case (Inl e)
    with Suc.prems n' show ?thesis by simp
  next
    case (Inr resp)
    show ?thesis
    proof (cases "nonEmpty (nextAfter resp)")
      case True
      with Inr Suc.prems n' Suc.IH [of "nextAfter resp" "pageLoop (data resp) m" k]
      show ?thesis by (simp add: Let_def)
    next
      case False
      with Inr Suc.prems n' show ?thesis by (simp add: Let_def)
    qed
  qed
qed

lemma listStoreFileHashes_unique:
  "listStoreFileHashes n cl r store = Some x \<Longrightarrow> listStoreFileHashes n' cl r store = Some y \<Longrightarrow> x = y"
  unfolding listStoreFileHashes_def by (rule listLoop_unique)

lemma initialSync_listing:
  "initialSync n env cl r store repoRoot =
     (case listStoreFileHashes n cl r store of
        None \<Rightarrow> None
      | Some (Inl e) \<Rightarrow> Some (Inl e)
      | Some (Inr m) \<Rightarrow> Some (Inr (syncAll env cl store repoRoot m r)))"
  by (simp add: initialSync_def syncAll_def outcomeOf_def startOf_def repoFilesOf_def Let_def
      split: option.splits sum.splits)

lemma initialSync_returns:
  assumes fa: "faithful cl store view"
  shows "\<exists>n. initialSync n env cl r store repoRoot = Some (Inr (syncAll env cl store repoRoot (view r) r))"
proof -
  from fa obtain k where k: "listStoreFileHashes k cl r store = Some (Inr (view r))"
    unfolding faithful_def by blast
  then have "initialSync k env cl r store repoRoot = Some (Inr (syncAll env cl store repoRoot (view r) r))"
    by (simp add: initialSync_listing)
  then show ?thesis
    by blast
qed

lemma initialSync_result:
  assumes fa: "faithful cl store view"
    and a: "initialSync n env cl r store repoRoot = Some out"
  shows "out = Inr (syncAll env cl store repoRoot (view r) r)"
proof -
  from fa obtain k where k: "listStoreFileHashes k cl r store = Some (Inr (view r))"
    unfolding faithful_def by blast
  from a obtain x where x: "listStoreFileHashes n cl r store = Some x"
    by (auto simp: initialSync_listing split: option.splits)
  have "x = Inr (view r)"
    using x k by (rule listStoreFileHashes_unique)
  with a x show ?thesis
    by (simp add: initialSync_listing)
qed

lemma syncAll_view:
  assumes "reliable cl store" and "faithful cl store view"
  shows "uploaded (fst (syncAll env cl store repoRoot m r))
           = length (filter (wants env m) (repoFilesOf env repoRoot))"
    and "view (remote (snd (syncAll env cl store repoRoot m r))) q =
           (if q \<in> set (repoFilesOf env repoRoot) \<and> wants env m q
            then Some (Some (digestOf env q)) else view r q)"
  using fold_send [OF assms repoFilesOf_nonempty, where env = env and m = m and st = "startOf r"
      and n = "length (repoFilesOf env repoRoot)" and ?env1 = env and ?repoRoot1 = repoRoot]
  by (simp_all add: syncAll_def outcomeOf_def startOf_def fold_record_upload)

lemma syncAll_skip:
  assumes "\<forall>p\<in>set (repoFilesOf env repoRoot). \<not> wants env m p"
  shows "uploaded (fst (syncAll env cl store repoRoot m r)) = 0 \<and>
         requests (snd (syncAll env cl store repoRoot m r)) = [] \<and>
         remote (snd (syncAll env cl store repoRoot m r)) = r"
  using fold_skip [OF assms, of cl store "length (repoFilesOf env repoRoot)" "startOf r"]
  by (simp add: syncAll_def outcomeOf_def startOf_def)

lemma settled_after_sync:
  assumes rel: "reliable cl store" and fa: "faithful cl store view"
    and h: "\<forall>b. computeBufferHash env b \<noteq> []"
    and p: "p \<in> set (repoFilesOf env repoRoot)"
  shows "\<not> wants env (view (remote (snd (syncAll env cl store repoRoot (view r) r)))) p"
proof
  let ?v = "view (remote (snd (syncAll env cl store repoRoot (view r) r)))"
  assume w: "wants env ?v p"
  then obtain b where rd: "readFile env p = Inr b" and ne: "b \<noteq> []"
    and c: "\<not> nonEmpty (existingHashOf ?v p) \<or> existingHashOf ?v p \<noteq> Some (computeBufferHash env b)"
    by (auto simp: wants_def split: sum.splits)
  have d: "digestOf env p = computeBufferHash env b"
    using rd by (simp add: digestOf_def)
  show False
  proof (cases "wants env (view r) p")
    case True
    with p have "?v p = Some (Some (computeBufferHash env b))"
      by (simp add: syncAll_view(2) [OF rel fa] d)
    with c h show False
      by (simp add: existingHashOf_def nonEmpty_def)
  next
    case False
    then have "?v p = view r p"
      by (simp add: syncAll_view(2) [OF rel fa])
    then have "existingHashOf ?v p = existingHashOf (view r) p"
      by (simp add: existingHashOf_def)
    with c rd ne have "wants env (view r) p"
      by (simp add: wants_def)
    with False show False ..
  qed
qed

lemma repoFilesOf_readFile: "repoFilesOf (env\<lparr> readFile := rf \<rparr>) repoRoot = repoFilesOf env repoRoot"
  by (simp add: repoFilesOf_def filterRepoFiles_def getGitRepoFiles_def isIgnoredByGit_def)

lemma recorded_after_sync:
  assumes rel: "reliable cl store" and fa: "faithful cl store view"
    and p: "p \<in> set (repoFilesOf env repoRoot)"
    and rd: "readFile env p = Inr b" and ne: "b \<noteq> []"
  shows "view (remote (snd (syncAll env cl store repoRoot (view r) r))) p
           = Some (Some (computeBufferHash env b))"
proof (cases "wants env (view r) p")
  case True
  with p rd show ?thesis
    by (simp add: syncAll_view(2) [OF rel fa] digestOf_def)
next
  case False
  with rd ne have "nonEmpty (existingHashOf (view r) p) \<and>
      existingHashOf (view r) p = Some (computeBufferHash env b)"
    by (auto simp: wants_def)
  then have "view r p = Some (Some (computeBufferHash env b))"
    by (auto simp: existingHashOf_def split: option.splits)
  with False show ?thesis
    by (simp add: syncAll_view(2) [OF rel fa])
qed

lemma untouched_after_sync:
  assumes rel: "reliable cl store" and fa: "faithful cl store view"
    and u: "unrecorded env p"
  shows "view (remote (snd (syncAll env cl store repoRoot (view r) r))) p = view r p"
proof -
  from u have "\<not> wants env (view r) p"
    by (auto simp: unrecorded_def wants_def split: sum.splits)
  then show ?thesis
    by (simp add: syncAll_view(2) [OF rel fa])
qed

lemma repoFilesOf_repo_env:
  "repoFilesOf (repo_env rf) ''/repo'' = [''/repo/a.ts'', ''/repo/b.ts'', ''/repo/notes.md'']"
  by (simp add: repoFilesOf_def filterRepoFiles_def getGitRepoFiles_def isIgnoredByGit_def
      repo_env_def setOrder_def NUL_def pathJoin_def normalize_def Let_def)

lemma steady_listing:
  "listStoreFileHashes (Suc n) steady_client r store = Some (Inr (steady_view r))"
  by (simp add: listStoreFileHashes_def steady_client_def single_page_def nextAfter_def
      nonEmpty_def steady_view_def Let_def)

lemma flaky_listing:
  "listStoreFileHashes (Suc n) flaky_client r store = Some (Inr (steady_view (entries r)))"
  by (simp add: listStoreFileHashes_def flaky_client_def single_page_def nextAfter_def
      nonEmpty_def steady_view_def Let_def)

lemma hashOf_entryOf: "hashOf (metadata (entryOf options)) = Some (opt_metadata_hash options)"
  by (simp add: entryOf_def hashOf_def truthy_def property_def Let_def)

lemma pagePairs_Nil: "pagePairs [] = []"
  by (simp add: pagePairs_def)

lemma repo_env_fields:
  "readFile (repo_env rf) = rf" "computeBufferHash (repo_env rf) = toy_digest"
  by (simp_all add: repo_env_def)

lemma pagePairs_append: "pagePairs (xs @ ys) = pagePairs xs @ pagePairs ys"
  by (simp add: pagePairs_def)

lemma pagePairs_filter:
  "pagePairs (filter (\<lambda>f. external_id f \<noteq> Some i) fs) = filter (\<lambda>kv. fst kv \<noteq> i) (pagePairs fs)"
  by (induction fs) (auto simp: pagePairs_Nil pagePairs_Cons split: option.splits)

lemma map_of_filter_other:
  "k \<noteq> i \<Longrightarrow> map_of (filter (\<lambda>kv. fst kv \<noteq> i) xs) k = map_of xs k"
  by (induction xs) auto

lemma steady_view_overwrite:
  assumes "opt_external_id options \<noteq> []"
  shows "steady_view (overwrite options r)
           = (steady_view r)(opt_external_id options \<mapsto> Some (opt_metadata_hash options))"
proof (rule ext)
  fix k
  let ?i = "opt_external_id options"
  have new: "pagePairs [entryOf options] = [(?i, Some (opt_metadata_hash options))]"
    using assms hashOf_entryOf [of options] by (simp add: pagePairs_def entryOf_def)
  have pairs: "rev (pagePairs (overwrite options r)) =
      (?i, Some (opt_metadata_hash options)) # filter (\<lambda>kv. fst kv \<noteq> ?i) (rev (pagePairs r))"
    by (simp add: overwrite_def pagePairs_append pagePairs_filter new rev_filter)
  show "steady_view (overwrite options r) k
      = ((steady_view r)(?i \<mapsto> Some (opt_metadata_hash options))) k"
    by (simp add: steady_view_def pageLoop_apply pairs map_of_filter_other)
qed

lemma steady_faithful: "faithful steady_client store steady_view"
  unfolding faithful_def
proof (intro conjI allI impI)
  fix r
  show "\<exists>n. listStoreFileHashes n steady_client r store = Some (Inr (steady_view r))"
    using steady_listing [of 0 r store] by blast
next
  fix r body options r'
  assume "files_upload steady_client r store body options = (Inr (), r') \<and> opt_external_id options \<noteq> []"
  then have "r' = overwrite options r" and "opt_external_id options \<noteq> []"
    by (simp_all add: steady_client_def)
  then show "steady_view r' = (steady_view r)(opt_external_id options \<mapsto> Some (opt_metadata_hash options))"
    by (simp add: steady_view_overwrite)
qed

lemma steady_reliable: "reliable steady_client store"
  by (simp add: reliable_def steady_client_def)

lemma toy_digest_nonempty: "\<forall>b. computeBufferHash (repo_env rf) b \<noteq> []"
  by (simp add: repo_env_fields toy_digest_def)

lemma steady_run:
  "initialSync (Suc n) env steady_client r store repoRoot =
     Some (Inr (syncAll env steady_client store repoRoot (steady_view r) r))"
  by (simp only: initialSync_listing steady_listing option.case sum.case)

lemma flaky_run:
  "initialSync (Suc n) env flaky_client r store repoRoot =
     Some (Inr (syncAll env flaky_client store repoRoot (steady_view (entries r)) r))"
  by (simp only: initialSync_listing flaky_listing option.case sum.case)

lemma first_run_remote:
  "remote (snd (syncAll (repo_env first_contents) steady_client ''store'' ''/repo'' (steady_view []) []))
     = first_store"
  by (simp add: syncAll_def repoFilesOf_repo_env outcomeOf_def startOf_def syncFile_def
      uploadFile_def report_def existingHashOf_def nonEmpty_def Let_def
      repo_env_fields first_contents_def toy_digest_def steady_client_def overwrite_def
      first_store_def entryOf_def steady_view_def)

lemmas run_simps =
  syncAll_def repoFilesOf_repo_env outcomeOf_def startOf_def syncFile_def
  uploadFile_def report_def existingHashOf_def nonEmpty_def Let_def
  repo_env_fields toy_digest_def overwrite_def first_store_def entryOf_def
  steady_view_def hashOf_def truthy_def property_def

subsection \<open>The claims about the listing and the synchronisation\<close>

lemma served_paged:
  "served (\<lambda>after. files_list paged_client () ''store'' 100 after) None [page_one, page_two]"
  by (simp add: paged_client_def continues_def cursorOf_def page_one_def page_two_def)

text \<open>
  C8 (as amended). \<open>listStoreFileHashes\<close> requests the pages of the listing one after the
  other, the cursor of each page being the next request, and stops at the first page
  that reports no further pages or carries no cursor: it makes exactly as many requests
  as that chain has pages. The map returned holds every listed identifier that is not
  empty, mapped to the hash of the metadata of its last listing when that is a string
  and to undefined otherwise; entries without an identifier are left out.
\<close>

theorem listStoreFileHashes_pages:
  assumes "served (\<lambda>after. files_list cl r store 100 after) None pages"
  shows "listStoreFileHashes n cl r store =
           (if n < length pages then None else Some (Inr (listedHashes pages)))"
  using listLoop_served [OF assms, of n Map.empty]
  by (simp add: listStoreFileHashes_def listedHashes_def)

theorem listStoreFileHashes_pages_witness:
  "listStoreFileHashes 2 paged_client () ''store'' = Some (Inr (listedHashes [page_one, page_two])) \<and>
   listStoreFileHashes 1 paged_client () ''store'' = None \<and>
   listedHashes [page_one, page_two] ''/repo/a.ts'' = Some (Some ''h2'') \<and>
   listedHashes [page_one, page_two] ''/repo/b.ts'' = Some None \<and>
   listedHashes [page_one, page_two] ''/repo/c.ts'' = Some None \<and>
   listedHashes [page_one, page_two] [] = None"
proof -
  have "listedHashes [page_one, page_two] ''/repo/a.ts'' = Some (Some ''h2'') \<and>
   listedHashes [page_one, page_two] ''/repo/b.ts'' = Some None \<and>
   listedHashes [page_one, page_two] ''/repo/c.ts'' = Some None \<and>
   listedHashes [page_one, page_two] [] = None"
    by (simp add: listedHashes_def pagePairs_def page_one_def page_two_def hashOf_def truthy_def
        property_def Let_def)
  then show ?thesis
    using listStoreFileHashes_pages [OF served_paged, of 2] listStoreFileHashes_pages [OF served_paged, of 1]
    by simp
qed

text \<open>
  C8 as stated fails: a first page that reports more pages and carries no cursor ends
  the loop after one request, with the entries of that page.
\<close>

theorem listStoreFileHashes_stalled_counterexample:
  "map_sum id (\<lambda>resp. map_option has_more (pagination resp))
     (files_list stalled_client () ''store'' 100 None) = Inr (Some True) \<and>
   map_option (map_sum id (\<lambda>m. (m ''/repo/a.ts'', m ''/repo/b.ts'')))
     (listStoreFileHashes 1 stalled_client () ''store'') = Some (Inr (Some (Some ''h1''), Some None))"
  by (simp add: listStoreFileHashes_def stalled_client_def page_one_def nextAfter_def nonEmpty_def
      hashOf_def truthy_def property_def Let_def)

text \<open>
  C1 (as amended). With a store that lists what was uploaded and whose uploads do not
  fail, and a digest that is never empty: after a run of \<open>initialSync\<close> has returned, a
  second run over the same files returns, makes no upload request, leaves the store as
  it is and reports \<open>uploaded = 0\<close>.
\<close>

theorem initialSync_idempotent:
  assumes fa: "faithful cl store view" and rel: "reliable cl store"
    and h: "\<forall>b. computeBufferHash env b \<noteq> []"
    and run1: "initialSync n1 env cl r0 store repoRoot = Some (Inr (res1, st1))"
  shows "\<exists>n2 res2 st2.
           initialSync n2 env cl (remote st1) store repoRoot = Some (Inr (res2, st2)) \<and>
           uploaded res2 = 0 \<and> requests st2 = [] \<and> remote st2 = remote st1 \<and>
           (\<forall>n out. initialSync n env cl (remote st1) store repoRoot = Some out
              \<longrightarrow> out = Inr (res2, st2))"
proof -
  let ?r1 = "remote st1"
  have one: "(res1, st1) = syncAll env cl store repoRoot (view r0) r0"
    using initialSync_result [OF fa run1] by simp
  then have st1: "st1 = snd (syncAll env cl store repoRoot (view r0) r0)"
    by (metis snd_conv)
  have settled: "\<forall>p\<in>set (repoFilesOf env repoRoot). \<not> wants env (view ?r1) p"
    unfolding st1 using settled_after_sync [OF rel fa h] by blast
  let ?out = "syncAll env cl store repoRoot (view ?r1) ?r1"
  from initialSync_returns [OF fa, of env ?r1 repoRoot]
  obtain n2 where n2: "initialSync n2 env cl ?r1 store repoRoot = Some (Inr ?out)"
    by blast
  have "uploaded (fst ?out) = 0 \<and> requests (snd ?out) = [] \<and> remote (snd ?out) = ?r1"
    using settled by (rule syncAll_skip)
  moreover have "\<forall>n out. initialSync n env cl ?r1 store repoRoot = Some out \<longrightarrow> out = Inr ?out"
    using initialSync_result [OF fa] by blast
  ultimately show ?thesis
    using n2 by (metis prod.collapse)
qed

theorem initialSync_idempotent_witness:
  "map_option (map_sum id (\<lambda>out. (uploaded (fst out), requests (snd out))))
     (initialSync 1 (repo_env first_contents) steady_client first_store ''store'' ''/repo'')
     = Some (Inr (0, []))"
proof -
  let ?env = "repo_env first_contents"
  let ?one = "syncAll ?env steady_client ''store'' ''/repo'' (steady_view []) []"
  have run1: "initialSync 1 ?env steady_client [] ''store'' ''/repo'' = Some (Inr (fst ?one, snd ?one))"
    using steady_run [of 0 ?env "[]"] by simp
  from initialSync_idempotent [OF steady_faithful steady_reliable toy_digest_nonempty run1]
  obtain res2 st2 where zero: "uploaded res2 = 0" "requests st2 = []"
    and only: "\<forall>n out. initialSync n ?env steady_client first_store ''store'' ''/repo'' = Some out
                 \<longrightarrow> out = Inr (res2, st2)"
    unfolding first_run_remote by blast
  from only have "initialSync 1 ?env steady_client first_store ''store'' ''/repo'' = Some (Inr (res2, st2))"
    using steady_run [of 0 ?env first_store] by auto
  with zero show ?thesis
    by simp
qed

text \<open>
  C1 as stated fails: a run whose upload of \<open>a.ts\<close> fails twice (the stream and the
  buffer) swallows the failure and returns; the second run, with no file changed, uploads
  \<open>a.ts\<close> and reports \<open>uploaded = 1\<close>.
\<close>

theorem initialSync_retry_counterexample:
  "map_option (map_sum id fst)
     (initialSync 1 (repo_env first_contents) flaky_client \<lparr> entries = [], outages = 2 \<rparr> ''store'' ''/repo'')
     = Some (Inr \<lparr> processed = 3, uploaded = 1, total = 3, filePath = None \<rparr>) \<and>
   map_option (map_sum id (remote \<circ> snd))
     (initialSync 1 (repo_env first_contents) flaky_client \<lparr> entries = [], outages = 2 \<rparr> ''store'' ''/repo'')
     = Some (Inr \<lparr> entries = [entryOf \<lparr> opt_external_id = ''/repo/notes.md'', opt_overwrite = True,
                  opt_metadata_path = ''/repo/notes.md'', opt_metadata_hash = ''sha256:todo'' \<rparr>],
                outages = 0 \<rparr>) \<and>
   map_option (map_sum id fst)
     (initialSync 1 (repo_env first_contents) flaky_client
        \<lparr> entries = [entryOf \<lparr> opt_external_id = ''/repo/notes.md'', opt_overwrite = True,
                  opt_metadata_path = ''/repo/notes.md'', opt_metadata_hash = ''sha256:todo'' \<rparr>],
          outages = 0 \<rparr> ''store'' ''/repo'')
     = Some (Inr \<lparr> processed = 3, uploaded = 1, total = 3, filePath = None \<rparr>)"
proof -
  have run: "\<And>r. initialSync 1 (repo_env first_contents) flaky_client r ''store'' ''/repo'' =
      Some (Inr (syncAll (repo_env first_contents) flaky_client ''store'' ''/repo''
                   (steady_view (entries r)) r))"
    using flaky_run [of 0] by simp
  show ?thesis
    unfolding run by (simp add: run_simps first_contents_def flaky_client_def)
qed

lemma second_env: "repo_env second_contents = (repo_env first_contents)\<lparr> readFile := second_contents \<rparr>"
  by (simp add: repo_env_def)

lemma changed_files:
  "filter (changedToContent (repo_env first_contents) second_contents)
     (repoFilesOf (repo_env first_contents) ''/repo'') = [''/repo/b.ts'']"
  by (simp add: repoFilesOf_repo_env changedToContent_def repo_env_fields
      first_contents_def second_contents_def)

text \<open>
  C2 (as amended). With a store that lists what was uploaded and whose uploads do not
  fail, a digest that is never empty and does not collide on the contents of a file in
  the two runs, and no hash listed before the first run for a file that the first run
  cannot read or reads empty: the second run reports as \<open>uploaded\<close> the number of
  candidate files that have changed to a content that is not empty.
\<close>

theorem initialSync_converges:
  assumes fa: "faithful cl store view" and rel: "reliable cl store"
    and h: "\<forall>b. computeBufferHash env1 b \<noteq> []"
    and env2: "env2 = env1\<lparr> readFile := readFile2 \<rparr>"
    and distinct: "\<forall>p\<in>set (repoFilesOf env1 repoRoot). \<forall>b1 b2.
        readFile env1 p = Inr b1 \<and> readFile2 p = Inr b2 \<and> b1 \<noteq> b2 \<longrightarrow>
        computeBufferHash env1 b1 \<noteq> computeBufferHash env1 b2"
    and fresh: "\<forall>p\<in>set (repoFilesOf env1 repoRoot). unrecorded env1 p \<longrightarrow> view r0 p = None"
    and run1: "initialSync n1 env1 cl r0 store repoRoot = Some (Inr (res1, st1))"
  shows "\<exists>n2 res2 st2.
           initialSync n2 env2 cl (remote st1) store repoRoot = Some (Inr (res2, st2)) \<and>
           uploaded res2
             = length (filter (changedToContent env1 readFile2) (repoFilesOf env1 repoRoot)) \<and>
           (\<forall>n out. initialSync n env2 cl (remote st1) store repoRoot = Some out
              \<longrightarrow> out = Inr (res2, st2))"
proof -
  let ?fs = "repoFilesOf env1 repoRoot"
  let ?r1 = "remote st1"
  have fs2: "repoFilesOf env2 repoRoot = ?fs"
    unfolding env2 by (rule repoFilesOf_readFile)
  have rf2: "readFile env2 = readFile2" and h2: "computeBufferHash env2 = computeBufferHash env1"
    unfolding env2 by simp_all
  have "(res1, st1) = syncAll env1 cl store repoRoot (view r0) r0"
    using initialSync_result [OF fa run1] by simp
  then have st1: "st1 = snd (syncAll env1 cl store repoRoot (view r0) r0)"
    by (metis snd_conv)
  have same: "wants env2 (view ?r1) p = changedToContent env1 readFile2 p" if p: "p \<in> set ?fs" for p
  proof (cases "readFile2 p")
    case (Inl e)
    then show ?thesis
      by (simp add: wants_def changedToContent_def rf2)
  next
    case (Inr b2)
    show ?thesis
    proof (cases "b2 = []")
      case True
      with Inr show ?thesis
        by (simp add: wants_def changedToContent_def rf2)
    next
      case False
      show ?thesis
      proof (cases "unrecorded env1 p")
        case True
        then have "view ?r1 p = view r0 p"
          unfolding st1 by (rule untouched_after_sync [OF rel fa])
        with fresh p True have "view ?r1 p = None"
          by simp
        moreover from True Inr False have "readFile env1 p \<noteq> Inr b2"
          by (auto simp: unrecorded_def)
        ultimately show ?thesis
          using Inr False
          by (simp add: wants_def changedToContent_def rf2 existingHashOf_def nonEmpty_def)
      next
        case False
        then obtain b1 where rd1: "readFile env1 p = Inr b1" and ne1: "b1 \<noteq> []"
          by (auto simp: unrecorded_def split: sum.splits)
        have "view ?r1 p = Some (Some (computeBufferHash env1 b1))"
          unfolding st1 using rel fa p rd1 ne1 by (rule recorded_after_sync)
        then have ex: "existingHashOf (view ?r1) p = Some (computeBufferHash env1 b1)"
          by (simp add: existingHashOf_def)
        have "computeBufferHash env1 b1 \<noteq> computeBufferHash env1 b2 \<longleftrightarrow> b1 \<noteq> b2"
          using distinct p rd1 Inr by auto
        with ex h rd1 Inr \<open>b2 \<noteq> []\<close> show ?thesis
          by (auto simp: wants_def changedToContent_def rf2 h2 nonEmpty_def)
      qed
    qed
  qed
  let ?out = "syncAll env2 cl store repoRoot (view ?r1) ?r1"
  from initialSync_returns [OF fa, of env2 ?r1 repoRoot]
  obtain n2 where n2: "initialSync n2 env2 cl ?r1 store repoRoot = Some (Inr ?out)"
    by blast
  have "uploaded (fst ?out) = length (filter (wants env2 (view ?r1)) ?fs)"
    using syncAll_view(1) [OF rel fa, of env2 repoRoot "view ?r1" ?r1] by (simp add: fs2)
  also have "filter (wants env2 (view ?r1)) ?fs = filter (changedToContent env1 readFile2) ?fs"
    by (rule filter_cong) (simp_all add: same)
  finally have up: "uploaded (fst ?out) = length (filter (changedToContent env1 readFile2) ?fs)" .
  have "\<forall>n out. initialSync n env2 cl ?r1 store repoRoot = Some out \<longrightarrow> out = Inr ?out"
    using initialSync_result [OF fa] by blast
  with n2 up show ?thesis
    by (metis prod.collapse)
qed

theorem initialSync_converges_witness:
  "map_option (map_sum id (uploaded \<circ> fst))
     (initialSync 1 (repo_env second_contents) steady_client first_store ''store'' ''/repo'')
     = Some (Inr 1) \<and>
   filter (changedToContent (repo_env first_contents) second_contents)
     (repoFilesOf (repo_env first_contents) ''/repo'') = [''/repo/b.ts'']"
proof -
  let ?env = "repo_env first_contents"
  let ?one = "syncAll ?env steady_client ''store'' ''/repo'' (steady_view []) []"
  have run1: "initialSync 1 ?env steady_client [] ''store'' ''/repo'' = Some (Inr (fst ?one, snd ?one))"
    using steady_run [of 0 ?env "[]"] by simp
  have distinct: "\<forall>p\<in>set (repoFilesOf ?env ''/repo''). \<forall>b1 b2.
        readFile ?env p = Inr b1 \<and> second_contents p = Inr b2 \<and> b1 \<noteq> b2 \<longrightarrow>
        computeBufferHash ?env b1 \<noteq> computeBufferHash ?env b2"
    by (simp add: repo_env_fields toy_digest_def)
  have fresh: "\<forall>p\<in>set (repoFilesOf ?env ''/repo''). unrecorded ?env p \<longrightarrow> steady_view [] p = None"
    by (simp add: steady_view_def)
  from initialSync_converges [OF steady_faithful steady_reliable toy_digest_nonempty second_env
      distinct fresh run1]
  obtain res2 st2 where count: "uploaded res2 = 1"
    and only: "\<forall>n out. initialSync n (repo_env second_contents) steady_client first_store ''store'' ''/repo''
                 = Some out \<longrightarrow> out = Inr (res2, st2)"
    unfolding first_run_remote changed_files by auto
  from only have "initialSync 1 (repo_env second_contents) steady_client first_store ''store'' ''/repo''
      = Some (Inr (res2, st2))"
    using steady_run [of 0 "repo_env second_contents" first_store] by auto
  with count changed_files show ?thesis
    by simp
qed

text \<open>
  C2 as stated fails: between the runs \<open>b.ts\<close> gets content and \<open>notes.md\<close> becomes empty;
  two files have changed and the second run reports \<open>uploaded = 1\<close>, since an empty file
  is never uploaded.
\<close>

theorem initialSync_emptied_file_counterexample:
  "map_option (map_sum id (remote \<circ> snd))
     (initialSync 1 (repo_env first_contents) steady_client [] ''store'' ''/repo'')
     = Some (Inr first_store) \<and>
   map_option (map_sum id (uploaded \<circ> fst))
     (initialSync 1 (repo_env second_contents) steady_client first_store ''store'' ''/repo'')
     = Some (Inr 1) \<and>
   filter (\<lambda>path. second_contents path \<noteq> first_contents path)
     (repoFilesOf (repo_env first_contents) ''/repo'') = [''/repo/b.ts'', ''/repo/notes.md'']"
proof -
  have run: "\<And>rf r. initialSync 1 (repo_env rf) steady_client r ''store'' ''/repo'' =
      Some (Inr (syncAll (repo_env rf) steady_client ''store'' ''/repo'' (steady_view r) r))"
    using steady_run [of 0] by simp
  show ?thesis
    unfolding run
    by (simp add: run_simps first_contents_def second_contents_def steady_client_def)
qed

lemma syncFile_counted:
  "counted (syncFile env cl store m n p st) = counted st + (if readable env p then 1 else 0) \<and>
   length (progress (syncFile env cl store m n p st)) = Suc (length (progress st))"
  by (auto simp: syncFile_def uploadFile_def report_def readable_def Let_def
      split: sum.splits prod.splits)

lemma fold_counted:
  "counted (fold (syncFile env cl store m n) fs st) = counted st + length (filter (readable env) fs) \<and>
   length (progress (fold (syncFile env cl store m n) fs st)) = length (progress st) + length fs"
proof (induction fs arbitrary: st)
  case Nil
  show ?case by simp
next
  case (Cons p fs)
  from syncFile_counted [of env cl store m n p st] Cons.IH [of "syncFile env cl store m n p st"]
  show ?case by simp
qed

lemma syncAll_counts:
  "processed (fst (syncAll env cl store repoRoot m r))
     = length (filter (readable env) (repoFilesOf env repoRoot)) \<and>
   total (fst (syncAll env cl store repoRoot m r)) = length (repoFilesOf env repoRoot) \<and>
   length (progress (snd (syncAll env cl store repoRoot m r))) = length (repoFilesOf env repoRoot)"
  using fold_counted [of env cl store m "length (repoFilesOf env repoRoot)" "repoFilesOf env repoRoot" "startOf r"]
  by (simp add: syncAll_def outcomeOf_def startOf_def)

text \<open>
  C3. A candidate that cannot be read: of three candidate files \<open>b.ts\<close> is a regular file
  whose read fails. The run returns, \<open>onProgress\<close> is called once for every file, and
  \<open>processed\<close> is 2 of a total of 3: the failed read is not counted, while a failed upload
  is (\<open>processed\<close> is incremented between the read and the upload).
\<close>

theorem initialSync_unreadable_file:
  "map_option (map_sum id fst)
     (initialSync 1 (repo_env locked_contents) steady_client [] ''store'' ''/repo'')
     = Some (Inr \<lparr> processed = 2, uploaded = 2, total = 3, filePath = None \<rparr>) \<and>
   map_option (map_sum id (progress \<circ> snd))
     (initialSync 1 (repo_env locked_contents) steady_client [] ''store'' ''/repo'')
     = Some (Inr [\<lparr> processed = 1, uploaded = 1, total = 3, filePath = Some ''/repo/a.ts'' \<rparr>,
                  \<lparr> processed = 1, uploaded = 1, total = 3, filePath = Some ''/repo/b.ts'' \<rparr>,
                  \<lparr> processed = 2, uploaded = 2, total = 3, filePath = Some ''/repo/notes.md'' \<rparr>])"
proof -
  have run: "\<And>rf r. initialSync 1 (repo_env rf) steady_client r ''store'' ''/repo'' =
      Some (Inr (syncAll (repo_env rf) steady_client ''store'' ''/repo'' (steady_view r) r))"
    using steady_run [of 0] by simp
  show ?thesis
    unfolding run
    by (simp add: run_simps locked_contents_def steady_client_def)
qed

section \<open>The metadata store\<close>

text \<open>
  Modelled from the spec: the class \<open>MetaStore\<close> (\<open>get\<close>, \<open>set\<close>, \<open>load\<close>, \<open>save\<close>) that the
  test of the metadata store imports is not among the sources; what follows is section
  4.4 of the specification. The disk is a map from paths to the text of the files, a
  document is the list of the keys and hashes of a JSON object. Parsing and serialising
  JSON are parameters: \<open>parseJson\<close> gives \<open>None\<close> for a text that does not parse.
\<close>

type_synonym disk = "string \<rightharpoonup> string"

type_synonym document = "(string \<times> string) list"

record MetaStore =
  meta_data :: document

text \<open>
  Modelled from the spec: \<open>get(key)\<close> and \<open>set(key, hash)\<close> of the mapping in memory, which
  \<open>MetaStore\<close> is missing from the sources for.
\<close>

definition get :: "MetaStore \<Rightarrow> string \<Rightarrow> string option" where
  "get store key = map_of (meta_data store) key"

definition set_entry :: "MetaStore \<Rightarrow> string \<Rightarrow> string \<Rightarrow> MetaStore" where
  "set_entry store key hash =
     store\<lparr> meta_data := filter (\<lambda>kv. fst kv \<noteq> key) (meta_data store) @ [(key, hash)] \<rparr>"

text \<open>
  Modelled from the spec: \<open>save()\<close> of the missing \<open>MetaStore\<close> writes the serialised
  mapping to the staging file, the sibling of the primary file with a fixed suffix, and
  then renames the staging file onto the primary file.
\<close>

definition tmpFileOf :: "string \<Rightarrow> string" where
  "tmpFileOf metaFile = metaFile @ ''.tmp''"

definition save :: "(document \<Rightarrow> string) \<Rightarrow> string \<Rightarrow> MetaStore \<Rightarrow> disk \<Rightarrow> disk" where
  "save stringify metaFile store d =
     (let text = stringify (meta_data store);
          staged = d(tmpFileOf metaFile \<mapsto> text)
      in (staged(metaFile \<mapsto> text))(tmpFileOf metaFile := None))"

text \<open>
  Modelled from the spec: \<open>load()\<close> of the missing \<open>MetaStore\<close> parses the primary file;
  when that fails it parses the staging file, takes its mapping as authoritative and
  saves it to the primary location; when both are unreadable it starts from the empty
  mapping. A file that is missing is unreadable.
\<close>

definition readDocument :: "(string \<Rightarrow> document option) \<Rightarrow> disk \<Rightarrow> string \<Rightarrow> document option" where
  "readDocument parseJson d file = (case d file of None \<Rightarrow> None | Some text \<Rightarrow> parseJson text)"

definition load ::
  "(string \<Rightarrow> document option) \<Rightarrow> (document \<Rightarrow> string) \<Rightarrow> string \<Rightarrow> disk \<Rightarrow> MetaStore \<times> disk" where
  "load parseJson stringify metaFile d =
     (case readDocument parseJson d metaFile of
        Some m \<Rightarrow> (\<lparr> meta_data = m \<rparr>, d)
      | None \<Rightarrow>
          (case readDocument parseJson d (tmpFileOf metaFile) of
             Some m \<Rightarrow> (\<lparr> meta_data = m \<rparr>, save stringify metaFile \<lparr> meta_data = m \<rparr> d)
           | None \<Rightarrow> (\<lparr> meta_data = [] \<rparr>, d)))"

text \<open>
  A sample of the two parameters: documents are written as \<open>JSON.stringify\<close> writes an
  object of strings without characters to escape, and \<open>flat_parse\<close> reads what
  \<open>flat_stringify\<close> writes and refuses every other text. Two disks: one with a torn
  primary file and a whole staging file, one with both files torn.
\<close>

definition quote :: char where
  "quote = CHR 0x22"

definition stringifyMember :: "string \<times> string \<Rightarrow> string" where
  "stringifyMember kv = [quote] @ fst kv @ [quote] @ '':'' @ [quote] @ snd kv @ [quote]"

fun joinComma :: "string list \<Rightarrow> string" where
  "joinComma [] = []"
| "joinComma [s] = s"
| "joinComma (s # t # ss) = s @ '','' @ joinComma (t # ss)"

definition flat_stringify :: "document \<Rightarrow> string" where
  "flat_stringify kvs = ''{'' @ joinComma (map stringifyMember kvs) @ ''}''"

definition takeQuoted :: "string \<Rightarrow> (string \<times> string) option" where
  "takeQuoted s =
     (case s of
        [] \<Rightarrow> None
      | c # cs \<Rightarrow>
          if c = quote then
            (case dropWhile (\<lambda>x. x \<noteq> quote) cs of
               [] \<Rightarrow> None
             | q # rest \<Rightarrow> Some (takeWhile (\<lambda>x. x \<noteq> quote) cs, rest))
          else None)"

fun parseMembers :: "nat \<Rightarrow> string \<Rightarrow> document option" where
  "parseMembers 0 s = None"
| "parseMembers (Suc n) s =
     (case takeQuoted s of
        None \<Rightarrow> None
      | Some (k, r1) \<Rightarrow>
          (case r1 of
             [] \<Rightarrow> None
           | c # r2 \<Rightarrow>
               if c = CHR '':'' then
                 (case takeQuoted r2 of
                    None \<Rightarrow> None
                  | Some (v, r3) \<Rightarrow>
                      if r3 = ''}'' then Some [(k, v)]
                      else (case r3 of
                              [] \<Rightarrow> None
                            | d # r4 \<Rightarrow>
                                if d = CHR '','' then map_option ((#) (k, v)) (parseMembers n r4)
                                else None))
               else None))"

definition flat_parse :: "string \<Rightarrow> document option" where
  "flat_parse s =
     (if s = ''{}'' then Some []
      else (case s of
              [] \<Rightarrow> None
            | c # cs \<Rightarrow> if c = CHR ''{'' then parseMembers (length cs) cs else None))"

definition recovered :: document where
  "recovered = [(''recovered-file'', ''recovered-hash'')]"

definition torn_disk :: disk where
  "torn_disk =
     [''/home/u/.osgrep/meta.json'' \<mapsto> ''corrupt json {'',
      ''/home/u/.osgrep/meta.json.tmp'' \<mapsto> flat_stringify recovered]"

definition ruined_disk :: disk where
  "ruined_disk =
     [''/home/u/.osgrep/meta.json'' \<mapsto> ''corrupt json {'',
      ''/home/u/.osgrep/meta.json.tmp'' \<mapsto> ''{'' @ [quote] @ ''recovered-fi'']"

subsection \<open>Crash recovery\<close>

lemma torn_primary: "readDocument flat_parse torn_disk ''/home/u/.osgrep/meta.json'' = None"
  by (simp add: readDocument_def torn_disk_def flat_parse_def)

lemma torn_staging:
  "readDocument flat_parse torn_disk (tmpFileOf ''/home/u/.osgrep/meta.json'') = Some recovered"
  by (simp add: readDocument_def torn_disk_def flat_parse_def tmpFileOf_def flat_stringify_def
      recovered_def stringifyMember_def takeQuoted_def quote_def)

lemma round_trip: "flat_parse (flat_stringify recovered) = Some recovered"
  by (simp add: flat_parse_def flat_stringify_def
      recovered_def stringifyMember_def takeQuoted_def quote_def)

lemma ruined_primary: "readDocument flat_parse ruined_disk ''/home/u/.osgrep/meta.json'' = None"
  by (simp add: readDocument_def ruined_disk_def flat_parse_def)

lemma ruined_staging:
  "readDocument flat_parse ruined_disk (tmpFileOf ''/home/u/.osgrep/meta.json'') = None"
  by (simp add: readDocument_def ruined_disk_def flat_parse_def tmpFileOf_def takeQuoted_def quote_def)

text \<open>
  C4. When the primary document does not parse and the staging file does, \<open>load\<close> gives
  the mapping of the staging file (\<open>get\<close> answers from it) and saves a primary document
  with that mapping, which parses back to it when serialising and parsing agree; when
  neither file can be read, \<open>load\<close> gives the empty mapping and leaves the disk as it is.
  No case of \<open>load\<close> throws.
\<close>

theorem load_recovers_from_staging:
  "(readDocument parseJson d metaFile = None \<and>
    readDocument parseJson d (tmpFileOf metaFile) = Some m \<longrightarrow>
      meta_data (fst (load parseJson stringify metaFile d)) = m \<and>
      get (fst (load parseJson stringify metaFile d)) key = map_of m key \<and>
      snd (load parseJson stringify metaFile d) metaFile = Some (stringify m) \<and>
      (parseJson (stringify m) = Some m \<longrightarrow>
         readDocument parseJson (snd (load parseJson stringify metaFile d)) metaFile = Some m)) \<and>
   (readDocument parseJson d metaFile = None \<and>
    readDocument parseJson d (tmpFileOf metaFile) = None \<longrightarrow>
      meta_data (fst (load parseJson stringify metaFile d)) = [] \<and>
      get (fst (load parseJson stringify metaFile d)) key = None \<and>
      snd (load parseJson stringify metaFile d) = d)"
  by (simp add: load_def save_def get_def readDocument_def tmpFileOf_def Let_def)

theorem load_recovers_from_staging_witness:
  "get (fst (load flat_parse flat_stringify ''/home/u/.osgrep/meta.json'' torn_disk)) ''recovered-file''
     = Some ''recovered-hash'' \<and>
   readDocument flat_parse (snd (load flat_parse flat_stringify ''/home/u/.osgrep/meta.json'' torn_disk))
     ''/home/u/.osgrep/meta.json'' = Some recovered \<and>
   meta_data (fst (load flat_parse flat_stringify ''/home/u/.osgrep/meta.json'' ruined_disk)) = [] \<and>
   snd (load flat_parse flat_stringify ''/home/u/.osgrep/meta.json'' ruined_disk) = ruined_disk"
  using load_recovers_from_staging [where parseJson = flat_parse and stringify = flat_stringify
      and metaFile = "''/home/u/.osgrep/meta.json''" and d = torn_disk and m = recovered
      and key = "''recovered-file''"]
    load_recovers_from_staging [where parseJson = flat_parse and stringify = flat_stringify
      and metaFile = "''/home/u/.osgrep/meta.json''" and d = ruined_disk]
    torn_primary torn_staging round_trip ruined_primary ruined_staging
  by (simp add: recovered_def)

end
